theory Spec2Isabelle
  imports Complex_Main "HOL-Library.Sublist"
begin

section \<open>JavaScript values used by the form pipeline\<close>

text \<open>
  The program is a single React module; its core is a handful of functions over
  plain objects: the coordinate helpers, \<^verbatim>\<open>mapPdfJsFieldType\<close>,
  \<^verbatim>\<open>flattenWithPdfLib\<close>, \<^verbatim>\<open>applyFields\<close> and \<^verbatim>\<open>extractFieldsWithPdfJs\<close>.
  JavaScript numbers are modelled as reals: the functions below only compare, take
  minima, maxima and absolute values, and add or subtract finite numbers; rounding,
  NaN and the infinities are outside the model. Strings are \<open>string\<close>; a value that
  may be \<^verbatim>\<open>undefined\<close> or \<^verbatim>\<open>null\<close> is an \<open>option\<close>.
\<close>

text \<open>The two kinds of value an overlay carries: a string or a boolean.\<close>

datatype jsval = JStr string | JBool bool

text \<open>JavaScript truthiness (\<^verbatim>\<open>if (v)\<close>, \<^verbatim>\<open>v || d\<close>): the empty string and \<^verbatim>\<open>false\<close> are falsy.\<close>

fun truthy :: "jsval \<Rightarrow> bool" where
  "truthy (JStr s) = (s \<noteq> [])"
| "truthy (JBool b) = b"

text \<open>\<^verbatim>\<open>String(v)\<close>.\<close>

fun String_of :: "jsval \<Rightarrow> string" where
  "String_of (JStr s) = s"
| "String_of (JBool b) = (if b then ''true'' else ''false'')"

text \<open>\<^verbatim>\<open>String.prototype.toLowerCase\<close> on the ASCII letters.\<close>

definition lower_char :: "char \<Rightarrow> char" where
  "lower_char c =
     (let n = (of_char c :: nat) in if 65 \<le> n \<and> n \<le> 90 then char_of (n + 32) else c)"

definition toLowerCase :: "string \<Rightarrow> string" where
  "toLowerCase s = map lower_char s"

text \<open>\<^verbatim>\<open>String.prototype.includes\<close>: a left-to-right search for the pattern.\<close>

fun starts_with :: "string \<Rightarrow> string \<Rightarrow> bool" where
  "starts_with s [] = True"
| "starts_with [] (p # ps) = False"
| "starts_with (c # cs) (p # ps) = (c = p \<and> starts_with cs ps)"

fun js_includes :: "string \<Rightarrow> string \<Rightarrow> bool" where
  "js_includes [] p = (p = [])"
| "js_includes (c # cs) p = (starts_with (c # cs) p \<or> js_includes cs p)"

section \<open>Field-type canonicalization\<close>

text \<open>
  \<^verbatim>\<open>
  function mapPdfJsFieldType(t) {
    if (!t) return "text";
    if (t === "Tx") return "text";
    if (t === "Ch") return "dropdown";
    if (t === "Sig") return "text";
    if (t === "Btn") return "checkbox";
    return ("" + t).toLowerCase().includes("radio") ? "radio" : "text";
  }
  \<close>
  The argument is a string or absent (\<open>None\<close>).
\<close>

definition mapPdfJsFieldType :: "string option \<Rightarrow> string" where
  "mapPdfJsFieldType t =
     (case t of
        None \<Rightarrow> ''text''
      | Some s \<Rightarrow>
          if s = [] then ''text''
          else if s = ''Tx'' then ''text''
          else if s = ''Ch'' then ''dropdown''
          else if s = ''Sig'' then ''text''
          else if s = ''Btn'' then ''checkbox''
          else if js_includes (toLowerCase s) ''radio'' then ''radio'' else ''text'')"

section \<open>Coordinate transform\<close>

text \<open>
  Rectangles are objects \<^verbatim>\<open>{x, y, width, height}\<close>. Record fields are global constants
  in HOL, so every field carries a prefix naming its object.
\<close>

record rect =
  rect_x :: real
  rect_y :: real
  rect_width :: real
  rect_height :: real

text \<open>
  A pdf.js viewport is a library object. The program calls two of its methods,
  \<^verbatim>\<open>convertToPdfPoint(x, y)\<close> and \<^verbatim>\<open>convertToViewportRectangle([x1, y1, x2, y2])\<close>; both
  are parameters of the model.
\<close>

record viewport =
  convertToPdfPoint :: "real \<Rightarrow> real \<Rightarrow> real \<times> real"
  convertToViewportRectangle :: "real \<times> real \<times> real \<times> real \<Rightarrow> real \<times> real \<times> real \<times> real"

text \<open>
  \<^verbatim>\<open>
  function viewportToPdfRectFromViewportRect(vx, vy, vwidth, vheight, viewport) {
    const [px1, py1] = viewport.convertToPdfPoint(vx, vy);
    const [px2, py2] = viewport.convertToPdfPoint(vx + vwidth, vy + vheight);
    return { x: Math.min(px1, px2), y: Math.min(py1, py2),
             width: Math.abs(px2 - px1), height: Math.abs(py2 - py1) };
  }
  \<close>
\<close>

definition viewportToPdfRectFromViewportRect ::
    "real \<Rightarrow> real \<Rightarrow> real \<Rightarrow> real \<Rightarrow> viewport \<Rightarrow> rect" where
  "viewportToPdfRectFromViewportRect vx vy vwidth vheight vp =
     (case convertToPdfPoint vp vx vy of (px1, py1) \<Rightarrow>
      case convertToPdfPoint vp (vx + vwidth) (vy + vheight) of (px2, py2) \<Rightarrow>
        \<lparr>rect_x = min px1 px2, rect_y = min py1 py2,
         rect_width = \<bar>px2 - px1\<bar>, rect_height = \<bar>py2 - py1\<bar>\<rparr>)"

text \<open>
  \<^verbatim>\<open>
  function pdfRectToViewportRect(pdfRectArray, viewport) {
    const rect = viewport.convertToViewportRectangle(pdfRectArray);
    return { x: Math.min(rect[0], rect[2]), y: Math.min(rect[1], rect[3]),
             width: Math.abs(rect[2] - rect[0]), height: Math.abs(rect[3] - rect[1]) };
  }
  \<close>
\<close>

definition pdfRectToViewportRect :: "real \<times> real \<times> real \<times> real \<Rightarrow> viewport \<Rightarrow> rect" where
  "pdfRectToViewportRect pdfRectArray vp =
     (case convertToViewportRectangle vp pdfRectArray of (r0, r1, r2, r3) \<Rightarrow>
        \<lparr>rect_x = min r0 r2, rect_y = min r1 r3,
         rect_width = \<bar>r2 - r0\<bar>, rect_height = \<bar>r3 - r1\<bar>\<rparr>)"



text \<open>
  Modelled from the spec: the viewport of a page for a (scale, rotation) pair, which is
  built by pdf.js and not by this module. The spec describes it as an immutable transform
  with a forward and an inverse mapping, "including inversion of the y-axis (PDF origin is
  bottom-left; rendering origin is top-left) and composition with the page's rotation".
  The model is the affine map pdf.js builds for a view box \<open>(x0, y0, x1, y1)\<close>: the
  rotation is reduced modulo 360 and must be a multiple of 90 (anything else is refused,
  \<open>None\<close>); the matrix \<open>(a, b, c, d, e, f)\<close> sends the point \<open>(x, y)\<close> to
  \<open>(a x + c y + e, b x + d y + f)\<close>; \<^verbatim>\<open>convertToViewportRectangle\<close> maps the two corners
  of the array and \<^verbatim>\<open>convertToPdfPoint\<close> applies the inverse matrix.
\<close>

definition rotation_matrix :: "int \<Rightarrow> (real \<times> real \<times> real \<times> real) option" where
  "rotation_matrix rotation =
     (let r = rotation mod 360
      in if r = 180 then Some (- 1, 0, 0, 1)
         else if r = 90 then Some (0, 1, 1, 0)
         else if r = 270 then Some (0, - 1, - 1, 0)
         else if r = 0 then Some (1, 0, 0, - 1)
         else None)"

definition applyTransform ::
    "real \<times> real \<Rightarrow> real \<times> real \<times> real \<times> real \<times> real \<times> real \<Rightarrow> real \<times> real" where
  "applyTransform p m =
     (case p of (p0, p1) \<Rightarrow> case m of (m0, m1, m2, m3, m4, m5) \<Rightarrow>
        (p0 * m0 + p1 * m2 + m4, p0 * m1 + p1 * m3 + m5))"

definition applyInverseTransform ::
    "real \<times> real \<Rightarrow> real \<times> real \<times> real \<times> real \<times> real \<times> real \<Rightarrow> real \<times> real" where
  "applyInverseTransform p m =
     (case p of (p0, p1) \<Rightarrow> case m of (m0, m1, m2, m3, m4, m5) \<Rightarrow>
        (let d = m0 * m3 - m1 * m2
         in ((p0 * m3 - p1 * m2 + m2 * m5 - m4 * m3) / d,
             (- p0 * m1 + p1 * m0 + m4 * m1 - m5 * m0) / d)))"

definition viewport_transform ::
    "real \<times> real \<times> real \<times> real \<Rightarrow> real \<Rightarrow> real \<times> real \<times> real \<times> real
       \<Rightarrow> real \<times> real \<times> real \<times> real \<times> real \<times> real" where
  "viewport_transform viewBox scale rot =
     (case viewBox of (x0, y0, x1, y1) \<Rightarrow> case rot of (rotateA, rotateB, rotateC, rotateD) \<Rightarrow>
        (let centerX = (x1 + x0) / 2;
             centerY = (y1 + y0) / 2;
             offsetCanvasX = (if rotateA = 0 then \<bar>centerY - y0\<bar> * scale
                              else \<bar>centerX - x0\<bar> * scale);
             offsetCanvasY = (if rotateA = 0 then \<bar>centerX - x0\<bar> * scale
                              else \<bar>centerY - y0\<bar> * scale)
         in (rotateA * scale, rotateB * scale, rotateC * scale, rotateD * scale,
             offsetCanvasX - rotateA * scale * centerX - rotateC * scale * centerY,
             offsetCanvasY - rotateB * scale * centerX - rotateD * scale * centerY)))"

definition PageViewport ::
    "real \<times> real \<times> real \<times> real \<Rightarrow> real \<Rightarrow> int \<Rightarrow> viewport option" where
  "PageViewport viewBox scale rotation =
     (case rotation_matrix rotation of
        None \<Rightarrow> None
      | Some rot \<Rightarrow>
          Some \<lparr>convertToPdfPoint =
                   (\<lambda>x y. applyInverseTransform (x, y) (viewport_transform viewBox scale rot)),
                 convertToViewportRectangle =
                   (\<lambda>(r0, r1, r2, r3).
                      case applyTransform (r0, r1) (viewport_transform viewBox scale rot) of
                        (t0, t1) \<Rightarrow>
                      case applyTransform (r2, r3) (viewport_transform viewBox scale rot) of
                        (b0, b1) \<Rightarrow> (t0, t1, b0, b1))\<rparr>)"

section \<open>Pages, annotations and overlays\<close>

text \<open>
  An annotation record as pdf.js returns it from \<^verbatim>\<open>page.getAnnotations()\<close>; only the
  properties the program reads. Absent properties are \<open>None\<close>.
\<close>

record annotation =
  subtype :: string
  fieldType :: "string option"
  widgetType :: "string option"
  fieldName :: "string option"
  alternativeText :: "string option"
  fieldValue :: "jsval option"
  ann_rect :: "real \<times> real \<times> real \<times> real"

text \<open>
  A pdf.js page handle: its intrinsic rotation, its \<^verbatim>\<open>getViewport({scale, rotation})\<close>
  method and the annotation list \<^verbatim>\<open>getAnnotations()\<close> resolves to.
\<close>

record pdfjs_page =
  page_rotate :: int
  getViewport :: "real \<Rightarrow> int \<Rightarrow> viewport"
  getAnnotations :: "annotation list"

text \<open>The field overlay object \<^verbatim>\<open>{id, pageIndex, type, name, value, x, y, width, height}\<close>.\<close>

record overlay =
  ov_id :: string
  ov_pageIndex :: int
  ov_type :: string
  ov_name :: string
  ov_value :: jsval
  ov_x :: real
  ov_y :: real
  ov_width :: real
  ov_height :: real

text \<open>
  \<^verbatim>\<open>xs[i]\<close> on a JavaScript array: \<^verbatim>\<open>undefined\<close> outside the range, no exception.
\<close>

definition js_index :: "'a list \<Rightarrow> int \<Rightarrow> 'a option" where
  "js_index xs i = (if 0 \<le> i \<and> nat i < length xs then Some (xs ! nat i) else None)"

text \<open>The decimal rendering of a non-negative integer inside a template literal.\<close>

definition digit_char :: "nat \<Rightarrow> char" where
  "digit_char d = char_of (48 + d)"

fun show_nat :: "nat \<Rightarrow> string" where
  "show_nat n = (if n < 10 then [digit_char n] else show_nat (n div 10) @ [digit_char (n mod 10)])"

declare show_nat.simps [simp del]

text \<open>
  \<^verbatim>\<open>s || d\<close> for an optional string \<open>s\<close> and a string default \<open>d\<close>: the first operand
  unless it is absent or empty.
\<close>

fun or_default :: "string option \<Rightarrow> string \<Rightarrow> string" where
  "or_default (Some s) d = (if s \<noteq> [] then s else d)"
| "or_default None d = d"

section \<open>Widget extractor\<close>

text \<open>
  The body of the \<^verbatim>\<open>forEach\<close> callback of \<^verbatim>\<open>extractFieldsWithPdfJs\<close>, for the widget
  \<open>a\<close> at index \<open>idx\<close> of the filtered list of page number \<open>i\<close>:
  \<^verbatim>\<open>
  const rect = pdfRectToViewportRect(a.rect, viewport);
  const t = a.fieldType || a.widgetType || "text";
  const name = a.fieldName || a.alternativeText || `Field_${i}_${idx}`;
  const value = a.fieldValue ?? "";
  const mappedType = mapPdfJsFieldType(t);
  if (mappedType === "checkbox" || mappedType === "radio") {
    const s = Math.max(12, Math.min(rect.width, rect.height));
    extracted.push({ id: `${i}_${idx}_${name}`, pageIndex: i - 1, type: mappedType, name,
                     value, x: rect.x, y: rect.y, width: s, height: s });
  } else {
    extracted.push({ id: `${i}_${idx}_${name}`, pageIndex: i - 1, type: mappedType, name,
                     value, x: rect.x, y: rect.y,
                     width: Math.max(40, rect.width), height: Math.max(20, rect.height) });
  }
  \<close>
\<close>

definition widget_name :: "nat \<Rightarrow> nat \<Rightarrow> annotation \<Rightarrow> string" where
  "widget_name i idx a =
     or_default (fieldName a)
       (or_default (alternativeText a) (''Field_'' @ show_nat i @ ''_'' @ show_nat idx))"

definition widget_id :: "nat \<Rightarrow> nat \<Rightarrow> annotation \<Rightarrow> string" where
  "widget_id i idx a = show_nat i @ ''_'' @ show_nat idx @ ''_'' @ widget_name i idx a"

definition mapped_type :: "annotation \<Rightarrow> string" where
  "mapped_type a =
     mapPdfJsFieldType (Some (or_default (fieldType a) (or_default (widgetType a) ''text'')))"

definition widget_value :: "annotation \<Rightarrow> jsval" where
  "widget_value a = (case fieldValue a of None \<Rightarrow> JStr [] | Some v \<Rightarrow> v)"

definition extract_widget :: "nat \<Rightarrow> viewport \<Rightarrow> nat \<Rightarrow> annotation \<Rightarrow> overlay" where
  "extract_widget i vp idx a =
     (let r = pdfRectToViewportRect (ann_rect a) vp;
          mappedType = mapped_type a
      in if mappedType = ''checkbox'' \<or> mappedType = ''radio'' then
           (let s = max 12 (min (rect_width r) (rect_height r))
            in \<lparr>ov_id = widget_id i idx a, ov_pageIndex = int i - 1, ov_type = mappedType,
                ov_name = widget_name i idx a, ov_value = widget_value a,
                ov_x = rect_x r, ov_y = rect_y r, ov_width = s, ov_height = s\<rparr>)
         else
           \<lparr>ov_id = widget_id i idx a, ov_pageIndex = int i - 1, ov_type = mappedType,
            ov_name = widget_name i idx a, ov_value = widget_value a,
            ov_x = rect_x r, ov_y = rect_y r,
            ov_width = max 40 (rect_width r), ov_height = max 20 (rect_height r)\<rparr>)"

text \<open>
  The earlier revision of the module kept in the repository has no branch for ticks:
  \<^verbatim>\<open>
  extracted.push({ id: `${i}_${idx}_${name}`, pageIndex: i - 1, type: mapPdfJsFieldType(t),
                   name, value, x: rect.x, y: rect.y,
                   width: Math.max(40, rect.width), height: Math.max(20, rect.height) });
  \<close>
\<close>

definition extract_widget_rev0 :: "nat \<Rightarrow> viewport \<Rightarrow> nat \<Rightarrow> annotation \<Rightarrow> overlay" where
  "extract_widget_rev0 i vp idx a =
     (let r = pdfRectToViewportRect (ann_rect a) vp
      in \<lparr>ov_id = widget_id i idx a, ov_pageIndex = int i - 1, ov_type = mapped_type a,
          ov_name = widget_name i idx a, ov_value = widget_value a,
          ov_x = rect_x r, ov_y = rect_y r,
          ov_width = max 40 (rect_width r), ov_height = max 20 (rect_height r)\<rparr>)"

text \<open>
  The widgets of one page, in annotation-list order, with the index \<^verbatim>\<open>forEach\<close> passes:
  \<^verbatim>\<open>anns.filter(a => a.subtype === "Widget").forEach((a, idx) => ...)\<close>.
\<close>

definition page_widgets :: "pdfjs_page \<Rightarrow> (nat \<times> annotation) list" where
  "page_widgets page = enumerate 0 (filter (\<lambda>a. subtype a = ''Widget'') (getAnnotations page))"

definition page_viewport :: "pdfjs_page \<Rightarrow> viewport" where
  "page_viewport page = getViewport page (3 / 2) (page_rotate page)"

text \<open>The converted rectangle of a widget of a page, \<^verbatim>\<open>pdfRectToViewportRect(a.rect, viewport)\<close>.\<close>

definition widget_rect :: "pdfjs_page \<Rightarrow> annotation \<Rightarrow> rect" where
  "widget_rect page a = pdfRectToViewportRect (ann_rect a) (page_viewport page)"

text \<open>
  \<^verbatim>\<open>
  for (let i = 1; i <= pdf.numPages; i++) {
    const page = await pdf.getPage(i); pageList.push(page);
    const anns = await page.getAnnotations();
    const viewport = page.getViewport({ scale: 1.5, rotation: page.rotate });
    anns.filter(...).forEach(...);
  }
  setPages(pageList); return extracted;
  \<close>
  The loaded document is the list of its pages (page \<open>i\<close> is element \<open>i - 1\<close>); the
  library's load and page reads are taken as having succeeded.
\<close>

definition extractFieldsWithPdfJs :: "pdfjs_page list \<Rightarrow> overlay list" where
  "extractFieldsWithPdfJs pdf =
     concat (map (\<lambda>(i, page). map (\<lambda>(idx, a). extract_widget i (page_viewport page) idx a)
                                  (page_widgets page))
                 (enumerate 1 pdf))"

definition extractFieldsWithPdfJs_rev0 :: "pdfjs_page list \<Rightarrow> overlay list" where
  "extractFieldsWithPdfJs_rev0 pdf =
     concat (map (\<lambda>(i, page). map (\<lambda>(idx, a). extract_widget_rev0 i (page_viewport page) idx a)
                                  (page_widgets page))
                 (enumerate 1 pdf))"

section \<open>The pdf-lib boundary\<close>

text \<open>
  \<^verbatim>\<open>flattenWithPdfLib\<close> and \<^verbatim>\<open>applyFields\<close> work on a pdf-lib document through method
  calls that mutate it and may throw. The library is outside the repository, so it is
  a parameter: a record of functions over an abstract document state \<open>'d\<close> and an
  abstract byte buffer \<open>'b\<close>. Each mutating call the program makes is one constructor
  of \<open>lib_call\<close>; a page of the document is named by its position in
  \<^verbatim>\<open>pdfDoc.getPages()\<close>, and \<open>None\<close> stands for \<^verbatim>\<open>undefined\<close>.
\<close>

datatype js_error = TypeError | LibError

datatype lib_call =
    EmbedFont
  | DeleteAcroForm
  | DeleteAnnots nat
  | GetForm
  | FormFlatten
  | CreateTextField string
  | AddToPage "nat option" rect
  | SetText string
  | CreateCheckBox string
  | Check
  | Uncheck
  | CreateRadioGroup string
  | AddOptionToPage string "nat option" rect
  | Select string

text \<open>
  \<^item> \<open>lib_load\<close>: \<^verbatim>\<open>PDFDocument.load(bytes)\<close>;
  \<^item> \<open>lib_exec\<close>: one mutating call; it returns the state the call leaves and the
    exception it threw, if any;
  \<^item> \<open>lib_catalogDict\<close>: whether \<^verbatim>\<open>pdfDoc.catalog && pdfDoc.catalog.dict\<close> is truthy;
  \<^item> \<open>lib_getPages\<close>: \<^verbatim>\<open>pdfDoc.getPages()\<close>, as the number of pages;
  \<^item> \<open>lib_nodeDict\<close>: whether \<^verbatim>\<open>page.node && page.node.dict\<close> is truthy for a page;
  \<^item> \<open>lib_save\<close>: \<^verbatim>\<open>pdfDoc.save({ useObjectStreams: false })\<close>.
\<close>

record ('b, 'd) pdf_lib =
  lib_load :: "'b \<Rightarrow> js_error + 'd"
  lib_exec :: "'d \<Rightarrow> lib_call \<Rightarrow> 'd \<times> js_error option"
  lib_catalogDict :: "'d \<Rightarrow> bool"
  lib_getPages :: "'d \<Rightarrow> js_error + nat"
  lib_nodeDict :: "'d \<Rightarrow> nat \<Rightarrow> bool"
  lib_save :: "'d \<Rightarrow> js_error + 'b"

text \<open>A straight-line sequence of calls: the first exception ends it and propagates.\<close>

fun run_calls :: "('b, 'd) pdf_lib \<Rightarrow> 'd \<Rightarrow> lib_call list \<Rightarrow> js_error + 'd" where
  "run_calls L d [] = Inr d"
| "run_calls L d (c # cs) =
     (case lib_exec L d c of
        (d', Some e) \<Rightarrow> Inl e
      | (d', None) \<Rightarrow> run_calls L d' cs)"

section \<open>Form flattener\<close>

text \<open>
  \<^verbatim>\<open>
  for (const page of pdfDoc.getPages()) {
    const node = page.node;
    if (node && node.dict) node.dict.delete(PDFName.of("Annots"));
  }
  \<close>
  over the page positions, inside the \<^verbatim>\<open>try\<close> block: the result is the state reached
  and the exception that ended the loop, if any.
\<close>

fun delete_annots :: "('b, 'd) pdf_lib \<Rightarrow> 'd \<Rightarrow> nat list \<Rightarrow> 'd \<times> js_error option" where
  "delete_annots L d [] = (d, None)"
| "delete_annots L d (i # is) =
     (if lib_nodeDict L d i then
        (case lib_exec L d (DeleteAnnots i) of
           (d', Some e) \<Rightarrow> (d', Some e)
         | (d', None) \<Rightarrow> delete_annots L d' is)
      else delete_annots L d is)"

text \<open>
  Phase 1:
  \<^verbatim>\<open>
  try {
    if (pdfDoc.catalog && pdfDoc.catalog.dict) pdfDoc.catalog.dict.delete(PDFName.of("AcroForm"));
    for (const page of pdfDoc.getPages()) { ... }
  } catch (_) {
    // best-effort cleanup
  }
  \<close>
  One \<^verbatim>\<open>try\<close> block holds both removals; whatever is thrown inside is dropped and
  execution continues after the block with the document as it is.
\<close>

definition hard_delete :: "('b, 'd) pdf_lib \<Rightarrow> 'd \<Rightarrow> 'd" where
  "hard_delete L d =
     (case (if lib_catalogDict L d then lib_exec L d DeleteAcroForm else (d, None)) of
        (d1, Some e) \<Rightarrow> d1
      | (d1, None) \<Rightarrow>
          (case lib_getPages L d1 of
             Inl e \<Rightarrow> d1
           | Inr n \<Rightarrow> fst (delete_annots L d1 [0..<n])))"

text \<open>
  Phase 2:
  \<^verbatim>\<open>
  try {
    const form = pdfDoc.getForm();
    form.flatten();
  } catch (_) { }
  \<close>
\<close>

definition flatten_fallback :: "('b, 'd) pdf_lib \<Rightarrow> 'd \<Rightarrow> 'd" where
  "flatten_fallback L d =
     (case lib_exec L d GetForm of
        (d1, Some e) \<Rightarrow> d1
      | (d1, None) \<Rightarrow> fst (lib_exec L d1 FormFlatten))"

text \<open>
  \<^verbatim>\<open>
  async function flattenWithPdfLib(originalBytes) {
    const pdfDoc = await PDFDocument.load(originalBytes);
    await pdfDoc.embedFont(StandardFonts.Helvetica);
    /* phase 1 */  /* phase 2 */
    return await pdfDoc.save({ useObjectStreams: false });
  }
  \<close>
\<close>

definition flattenWithPdfLib :: "('b, 'd) pdf_lib \<Rightarrow> 'b \<Rightarrow> js_error + 'b" where
  "flattenWithPdfLib L originalBytes =
     (case lib_load L originalBytes of
        Inl e \<Rightarrow> Inl e
      | Inr d0 \<Rightarrow>
          (case lib_exec L d0 EmbedFont of
             (d1, Some e) \<Rightarrow> Inl e
           | (d1, None) \<Rightarrow> lib_save L (flatten_fallback L (hard_delete L d1))))"

section \<open>Field re-applicator\<close>

text \<open>\<^verbatim>\<open>ov.name || `Text_${ov.id}`\<close>, for the prefix written in the template.\<close>

definition field_name :: "string \<Rightarrow> overlay \<Rightarrow> string" where
  "field_name pre ov = (if ov_name ov \<noteq> [] then ov_name ov else pre @ ov_id ov)"

text \<open>
  The library calls one overlay gives rise to, for the resolved page \<open>targPage\<close> and
  the converted rectangle \<open>r\<close>:
  \<^verbatim>\<open>
  if (ov.type === "text" || ov.type === "date" || ov.type === "dropdown") {
    const field = form.createTextField(ov.name || `Text_${ov.id}`);
    field.addToPage(targPage, { x: r.x, y: r.y, width: r.width, height: r.height });
    if (ov.value) field.setText(String(ov.value));
  } else if (ov.type === "checkbox") {
    const field = form.createCheckBox(ov.name || `Check_${ov.id}`);
    const s = Math.max(12, Math.min(r.width, r.height));
    field.addToPage(targPage, { x: r.x, y: r.y, width: s, height: s });
    if (ov.value) field.check(); else field.uncheck();
  } else if (ov.type === "radio") {
    const group = form.createRadioGroup(ov.name || `Radio_${ov.id}`);
    const s = Math.max(12, Math.min(r.width, r.height));
    group.addOptionToPage("on", targPage, { x: r.x, y: r.y, width: s, height: s });
    if (ov.value) group.select("on");
  }
  \<close>
\<close>

definition field_calls :: "nat option \<Rightarrow> rect \<Rightarrow> overlay \<Rightarrow> lib_call list" where
  "field_calls targPage r ov =
     (if ov_type ov = ''text'' \<or> ov_type ov = ''date'' \<or> ov_type ov = ''dropdown'' then
        [CreateTextField (field_name ''Text_'' ov),
         AddToPage targPage \<lparr>rect_x = rect_x r, rect_y = rect_y r,
                             rect_width = rect_width r, rect_height = rect_height r\<rparr>]
        @ (if truthy (ov_value ov) then [SetText (String_of (ov_value ov))] else [])
      else if ov_type ov = ''checkbox'' then
        (let s = max 12 (min (rect_width r) (rect_height r))
         in [CreateCheckBox (field_name ''Check_'' ov),
             AddToPage targPage \<lparr>rect_x = rect_x r, rect_y = rect_y r,
                                 rect_width = s, rect_height = s\<rparr>,
             if truthy (ov_value ov) then Check else Uncheck])
      else if ov_type ov = ''radio'' then
        (let s = max 12 (min (rect_width r) (rect_height r))
         in [CreateRadioGroup (field_name ''Radio_'' ov),
             AddOptionToPage ''on'' targPage \<lparr>rect_x = rect_x r, rect_y = rect_y r,
                                              rect_width = s, rect_height = s\<rparr>]
            @ (if truthy (ov_value ov) then [Select ''on''] else []))
      else [])"

text \<open>
  The earlier revision of the module kept in the repository sizes ticks differently:
  \<^verbatim>\<open>
  field.addToPage(targPage, { x: r.x, y: r.y,
                              width: Math.max(12, r.width), height: Math.max(12, r.height) });
  group.addOptionToPage("on", targPage, { x: r.x, y: r.y,
                              width: Math.max(12, r.width), height: Math.max(12, r.height) });
  \<close>
  and is otherwise the same.
\<close>

definition field_calls_rev0 :: "nat option \<Rightarrow> rect \<Rightarrow> overlay \<Rightarrow> lib_call list" where
  "field_calls_rev0 targPage r ov =
     (if ov_type ov = ''text'' \<or> ov_type ov = ''date'' \<or> ov_type ov = ''dropdown'' then
        [CreateTextField (field_name ''Text_'' ov),
         AddToPage targPage \<lparr>rect_x = rect_x r, rect_y = rect_y r,
                             rect_width = rect_width r, rect_height = rect_height r\<rparr>]
        @ (if truthy (ov_value ov) then [SetText (String_of (ov_value ov))] else [])
      else if ov_type ov = ''checkbox'' then
        [CreateCheckBox (field_name ''Check_'' ov),
         AddToPage targPage \<lparr>rect_x = rect_x r, rect_y = rect_y r,
                             rect_width = max 12 (rect_width r),
                             rect_height = max 12 (rect_height r)\<rparr>,
         if truthy (ov_value ov) then Check else Uncheck]
      else if ov_type ov = ''radio'' then
        [CreateRadioGroup (field_name ''Radio_'' ov),
         AddOptionToPage ''on'' targPage \<lparr>rect_x = rect_x r, rect_y = rect_y r,
                                          rect_width = max 12 (rect_width r),
                                          rect_height = max 12 (rect_height r)\<rparr>]
        @ (if truthy (ov_value ov) then [Select ''on''] else [])
      else [])"

text \<open>
  The head of the loop body:
  \<^verbatim>\<open>
  const targPage = pdfPages[ov.pageIndex];
  const pdfjsPage = pages[ov.pageIndex];
  const viewport = pdfjsPage.getViewport({ scale: 1.5, rotation: pdfjsPage.rotate });
  const r = viewportToPdfRectFromViewportRect(ov.x, ov.y, ov.width, ov.height, viewport);
  \<close>
  Reading a property of \<^verbatim>\<open>undefined\<close> throws a TypeError, so an index outside the
  page-handle list ends the call there. \<open>npages\<close> is the length of \<^verbatim>\<open>pdfPages\<close>.
\<close>

definition converted_rect :: "pdfjs_page \<Rightarrow> overlay \<Rightarrow> rect" where
  "converted_rect pdfjsPage ov =
     viewportToPdfRectFromViewportRect (ov_x ov) (ov_y ov) (ov_width ov) (ov_height ov)
       (page_viewport pdfjsPage)"

definition overlay_calls :: "nat \<Rightarrow> pdfjs_page list \<Rightarrow> overlay \<Rightarrow> js_error + lib_call list" where
  "overlay_calls npages pages ov =
     (let targPage = js_index [0..<npages] (ov_pageIndex ov)
      in case js_index pages (ov_pageIndex ov) of
           None \<Rightarrow> Inl TypeError
         | Some pdfjsPage \<Rightarrow> Inr (field_calls targPage (converted_rect pdfjsPage ov) ov))"

text \<open>\<^verbatim>\<open>for (const ov of overlays) { ... }\<close>, threading the document.\<close>

fun apply_loop ::
    "('b, 'd) pdf_lib \<Rightarrow> 'd \<Rightarrow> nat \<Rightarrow> pdfjs_page list \<Rightarrow> overlay list \<Rightarrow> js_error + 'd" where
  "apply_loop L d npages pages [] = Inr d"
| "apply_loop L d npages pages (ov # ovs) =
     (case overlay_calls npages pages ov of
        Inl e \<Rightarrow> Inl e
      | Inr cs \<Rightarrow>
          (case run_calls L d cs of
             Inl e \<Rightarrow> Inl e
           | Inr d' \<Rightarrow> apply_loop L d' npages pages ovs))"

text \<open>
  \<^verbatim>\<open>
  async function applyFields(flattenedBytes, overlays, pages) {
    const pdfDoc = await PDFDocument.load(flattenedBytes);
    const form = pdfDoc.getForm();
    const pdfPages = pdfDoc.getPages();
    for (const ov of overlays) { ... }
    return await pdfDoc.save({ useObjectStreams: false });
  }
  \<close>
  A rejected promise is \<open>Inl\<close>; the resolved bytes are \<open>Inr\<close>.
\<close>

definition applyFields ::
    "('b, 'd) pdf_lib \<Rightarrow> 'b \<Rightarrow> overlay list \<Rightarrow> pdfjs_page list \<Rightarrow> js_error + 'b" where
  "applyFields L flattenedBytes overlays pages =
     (case lib_load L flattenedBytes of
        Inl e \<Rightarrow> Inl e
      | Inr d0 \<Rightarrow>
          (case lib_exec L d0 GetForm of
             (d1, Some e) \<Rightarrow> Inl e
           | (d1, None) \<Rightarrow>
               (case lib_getPages L d1 of
                  Inl e \<Rightarrow> Inl e
                | Inr npages \<Rightarrow>
                    (case apply_loop L d1 npages pages overlays of
                       Inl e \<Rightarrow> Inl e
                     | Inr d2 \<Rightarrow> lib_save L d2))))"

text \<open>
  The loop and the function of the earlier revision, which differ from the current ones
  only in the calls of a tick.
\<close>

definition overlay_calls_rev0 ::
    "nat \<Rightarrow> pdfjs_page list \<Rightarrow> overlay \<Rightarrow> js_error + lib_call list" where
  "overlay_calls_rev0 npages pages ov =
     (let targPage = js_index [0..<npages] (ov_pageIndex ov)
      in case js_index pages (ov_pageIndex ov) of
           None \<Rightarrow> Inl TypeError
         | Some pdfjsPage \<Rightarrow> Inr (field_calls_rev0 targPage (converted_rect pdfjsPage ov) ov))"

fun apply_loop_rev0 ::
    "('b, 'd) pdf_lib \<Rightarrow> 'd \<Rightarrow> nat \<Rightarrow> pdfjs_page list \<Rightarrow> overlay list \<Rightarrow> js_error + 'd" where
  "apply_loop_rev0 L d npages pages [] = Inr d"
| "apply_loop_rev0 L d npages pages (ov # ovs) =
     (case overlay_calls_rev0 npages pages ov of
        Inl e \<Rightarrow> Inl e
      | Inr cs \<Rightarrow>
          (case run_calls L d cs of
             Inl e \<Rightarrow> Inl e
           | Inr d' \<Rightarrow> apply_loop_rev0 L d' npages pages ovs))"

definition applyFields_rev0 ::
    "('b, 'd) pdf_lib \<Rightarrow> 'b \<Rightarrow> overlay list \<Rightarrow> pdfjs_page list \<Rightarrow> js_error + 'b" where
  "applyFields_rev0 L flattenedBytes overlays pages =
     (case lib_load L flattenedBytes of
        Inl e \<Rightarrow> Inl e
      | Inr d0 \<Rightarrow>
          (case lib_exec L d0 GetForm of
             (d1, Some e) \<Rightarrow> Inl e
           | (d1, None) \<Rightarrow>
               (case lib_getPages L d1 of
                  Inl e \<Rightarrow> Inl e
                | Inr npages \<Rightarrow>
                    (case apply_loop_rev0 L d1 npages pages overlays of
                       Inl e \<Rightarrow> Inl e
                     | Inr d2 \<Rightarrow> lib_save L d2))))"

section \<open>Reading a sequence of calls\<close>

text \<open>The rectangles handed to \<^verbatim>\<open>addToPage\<close> and \<^verbatim>\<open>addOptionToPage\<close>, in order.\<close>

fun placed_rects :: "lib_call list \<Rightarrow> rect list" where
  "placed_rects [] = []"
| "placed_rects (AddToPage p r # cs) = r # placed_rects cs"
| "placed_rects (AddOptionToPage opt p r # cs) = r # placed_rects cs"
| "placed_rects (c # cs) = placed_rects cs"

text \<open>The names handed to the three field constructors, in order.\<close>

fun created_names :: "lib_call list \<Rightarrow> string list" where
  "created_names [] = []"
| "created_names (CreateTextField n # cs) = n # created_names cs"
| "created_names (CreateCheckBox n # cs) = n # created_names cs"
| "created_names (CreateRadioGroup n # cs) = n # created_names cs"
| "created_names (c # cs) = created_names cs"

text \<open>The overlay types the branches of \<^verbatim>\<open>applyFields\<close> test for.\<close>

definition known_type :: "string \<Rightarrow> bool" where
  "known_type t =
     (t = ''text'' \<or> t = ''date'' \<or> t = ''dropdown'' \<or> t = ''checkbox'' \<or> t = ''radio'')"

section \<open>Fixtures\<close>

text \<open>
  A library double that records every call in order and can be told which calls throw.
  Its documents and byte buffers are the page count with the calls made so far; every
  dictionary is present.
\<close>

record rec_doc =
  doc_pages :: nat
  doc_log :: "lib_call list"

definition rec_lib :: "(lib_call \<Rightarrow> bool) \<Rightarrow> (rec_doc, rec_doc) pdf_lib" where
  "rec_lib throws =
     \<lparr>lib_load = Inr,
      lib_exec = (\<lambda>d c. (d\<lparr>doc_log := doc_log d @ [c]\<rparr>,
                          if throws c then Some LibError else None)),
      lib_catalogDict = (\<lambda>d. True),
      lib_getPages = (\<lambda>d. Inr (doc_pages d)),
      lib_nodeDict = (\<lambda>d i. True),
      lib_save = Inr\<rparr>"

text \<open>
  The viewport of an unrotated 612 by 792 point page at scale 1.5, the page of the
  module's self-test: pixels are 1.5 points and the y axis is flipped.
\<close>

definition letter_viewport :: viewport where
  "letter_viewport =
     \<lparr>convertToPdfPoint = (\<lambda>x y. (x / (3 / 2), 792 - y / (3 / 2))),
      convertToViewportRectangle =
        (\<lambda>(x1, y1, x2, y2). ((3 / 2) * x1, (3 / 2) * (792 - y1),
                              (3 / 2) * x2, (3 / 2) * (792 - y2)))\<rparr>"

definition letter_page :: "annotation list \<Rightarrow> pdfjs_page" where
  "letter_page anns =
     \<lparr>page_rotate = 0, getViewport = (\<lambda>scale rotation. letter_viewport),
      getAnnotations = anns\<rparr>"

text \<open>A library double none of whose calls throws, and an empty document of \<open>n\<close> pages.\<close>

definition faultless :: "lib_call \<Rightarrow> bool" where
  "faultless c = False"

definition blank_doc :: "nat \<Rightarrow> rec_doc" where
  "blank_doc n = \<lparr>doc_pages = n, doc_log = []\<rparr>"

text \<open>A checkbox overlay of 30 by 12 pixels, that is 20 by 8 points, on the first page.\<close>

definition tick_overlay :: overlay where
  "tick_overlay =
     \<lparr>ov_id = ''new_1'', ov_pageIndex = 0, ov_type = ''checkbox'', ov_name = ''Agree'',
      ov_value = JBool False, ov_x = 60, ov_y = 60, ov_width = 30, ov_height = 12\<rparr>"

text \<open>An unnamed radio overlay, as the "new field" command creates it.\<close>

definition radio_overlay :: overlay where
  "radio_overlay =
     \<lparr>ov_id = ''new_2'', ov_pageIndex = 0, ov_type = ''radio'', ov_name = [],
      ov_value = JBool True, ov_x = 60, ov_y = 60, ov_width = 16, ov_height = 16\<rparr>"

text \<open>
  A checkbox widget of 20 by 8 points with no current value, and the text and checkbox
  widgets of the module's self-test.
\<close>

definition flat_tick_widget :: annotation where
  "flat_tick_widget =
     \<lparr>subtype = ''Widget'', fieldType = Some ''Btn'', widgetType = None,
      fieldName = Some ''Agree'', alternativeText = None, fieldValue = None,
      ann_rect = (72, 660, 92, 668)\<rparr>"

definition name_widget :: annotation where
  "name_widget =
     \<lparr>subtype = ''Widget'', fieldType = Some ''Tx'', widgetType = None,
      fieldName = Some ''Name'', alternativeText = None, fieldValue = Some (JStr ''Ada''),
      ann_rect = (72, 700, 272, 724)\<rparr>"

definition link_annotation :: annotation where
  "link_annotation =
     \<lparr>subtype = ''Link'', fieldType = None, widgetType = None,
      fieldName = None, alternativeText = None, fieldValue = None,
      ann_rect = (0, 0, 10, 10)\<rparr>"

text \<open>
  A one-page document carrying a link, the text widget and the flat checkbox widget, and
  the overlay each revision of the extractor produces for the checkbox.
\<close>

definition self_test_page :: pdfjs_page where
  "self_test_page = letter_page [link_annotation, name_widget, flat_tick_widget]"

definition self_test_pdf :: "pdfjs_page list" where
  "self_test_pdf = [self_test_page]"

definition extracted_tick :: overlay where
  "extracted_tick =
     \<lparr>ov_id = ''1_1_Agree'', ov_pageIndex = 0, ov_type = ''checkbox'', ov_name = ''Agree'',
      ov_value = JStr [], ov_x = 108, ov_y = 186, ov_width = 12, ov_height = 12\<rparr>"

definition extracted_tick_rev0 :: overlay where
  "extracted_tick_rev0 =
     \<lparr>ov_id = ''1_1_Agree'', ov_pageIndex = 0, ov_type = ''checkbox'', ov_name = ''Agree'',
      ov_value = JStr [], ov_x = 108, ov_y = 186, ov_width = 40, ov_height = 20\<rparr>"

text \<open>A converted rectangle to hand to the branches.\<close>

definition unit_rect :: rect where
  "unit_rect = \<lparr>rect_x = 0, rect_y = 0, rect_width = 1, rect_height = 1\<rparr>"

text \<open>An overlay whose type is none of the five, on the page of the given index.\<close>

definition stamp_overlay :: "int \<Rightarrow> overlay" where
  "stamp_overlay i =
     \<lparr>ov_id = ''new_3'', ov_pageIndex = i, ov_type = ''stamp'', ov_name = ''Seal'',
      ov_value = JStr [], ov_x = 10, ov_y = 10, ov_width = 50, ov_height = 50\<rparr>"

text \<open>Failure injection for the flattener: the call that throws.\<close>

definition catalog_throws :: "lib_call \<Rightarrow> bool" where
  "catalog_throws c = (c = DeleteAcroForm)"

definition first_page_throws :: "lib_call \<Rightarrow> bool" where
  "first_page_throws c = (c = DeleteAnnots 0)"

text \<open>The view box of the self-test page, and a rectangle to send through a viewport.\<close>

definition letter_box :: "real \<times> real \<times> real \<times> real" where
  "letter_box = (0, 0, 612, 792)"


text \<open>The overlays of a run that creates one field of each kind and skips a stamp.\<close>

definition mixed_overlays :: "overlay list" where
  "mixed_overlays =
     [tick_overlay, radio_overlay, stamp_overlay 0,
      tick_overlay\<lparr>ov_type := ''date'', ov_name := []\<rparr>]"

section \<open>Properties of the string helpers\<close>

lemma starts_with_prefix: "starts_with s p \<longleftrightarrow> prefix p s"
  by (induction s p rule: starts_with.induct) auto

lemma js_includes_sublist: "js_includes s p \<longleftrightarrow> sublist p s"
proof (induction s)
  case Nil
  show ?case by simp
next
  case (Cons c cs)
  show ?case
    by (simp add: Cons.IH starts_with_prefix sublist_Cons_right)
qed

lemma toLowerCase_Nil: "toLowerCase [] = []"
  by (simp add: toLowerCase_def)

section \<open>Canonicalization table\<close>

text \<open>
  Claim C4. The canonicalization maps \<open>Tx\<close> to text, \<open>Ch\<close> to dropdown, \<open>Sig\<close> to
  text and \<open>Btn\<close> to checkbox; any other code whose lower-cased form contains
  \<open>radio\<close> as a contiguous substring to radio; and every remaining code, the absent
  and the empty one included, to text.
\<close>

theorem mapPdfJsFieldType_table:
  "mapPdfJsFieldType (Some ''Tx'') = ''text'' \<and>
   mapPdfJsFieldType (Some ''Ch'') = ''dropdown'' \<and>
   mapPdfJsFieldType (Some ''Sig'') = ''text'' \<and>
   mapPdfJsFieldType (Some ''Btn'') = ''checkbox'' \<and>
   (\<forall>t. t \<notin> {''Tx'', ''Ch'', ''Sig'', ''Btn''} \<longrightarrow>
        mapPdfJsFieldType (Some t) =
          (if sublist ''radio'' (toLowerCase t) then ''radio'' else ''text'')) \<and>
   mapPdfJsFieldType None = ''text'' \<and>
   mapPdfJsFieldType (Some []) = ''text''"
  by (simp add: mapPdfJsFieldType_def js_includes_sublist toLowerCase_Nil)

theorem mapPdfJsFieldType_table_witness:
  "mapPdfJsFieldType (Some ''RadioButton'') = ''radio'' \<and>
   mapPdfJsFieldType (Some ''List'') = ''text''"
proof -
  have a: "''RadioButton'' \<notin> {''Tx'', ''Ch'', ''Sig'', ''Btn''}" by simp
  have b: "''List'' \<notin> {''Tx'', ''Ch'', ''Sig'', ''Btn''}" by simp
  have la: "toLowerCase ''RadioButton'' = ''radiobutton''"
    by code_simp
  have lb: "toLowerCase ''List'' = ''list''"
    by code_simp
  have sa: "sublist ''radio'' ''radiobutton''"
    by (simp add: js_includes_sublist [symmetric])
  have sb: "\<not> sublist ''radio'' ''list''"
    by (simp add: js_includes_sublist [symmetric])
  from mapPdfJsFieldType_table a b la lb sa sb show ?thesis by simp
qed

section \<open>Decimal rendering and the id separator\<close>

lemma of_char_digit: "d < 10 \<Longrightarrow> (of_char (digit_char d) :: nat) = 48 + d"
  by (simp add: digit_char_def)

lemma digit_char_not_underscore: "d < 10 \<Longrightarrow> digit_char d \<noteq> CHR ''_''"
proof
  assume d: "d < 10" and e: "digit_char d = CHR ''_''"
  from e have "(of_char (digit_char d) :: nat) = of_char CHR ''_''" by simp
  with d show False by (simp add: of_char_digit)
qed

lemma digit_char_inj: "a < 10 \<Longrightarrow> b < 10 \<Longrightarrow> digit_char a = digit_char b \<Longrightarrow> a = b"
proof -
  assume a: "a < 10" and b: "b < 10" and e: "digit_char a = digit_char b"
  from e have "(of_char (digit_char a) :: nat) = of_char (digit_char b)" by simp
  with a b show "a = b" by (simp add: of_char_digit)
qed

lemma show_nat_no_underscore: "CHR ''_'' \<notin> set (show_nat n)"
proof (induction n rule: show_nat.induct)
  case (1 n)
  show ?case
  proof (cases "n < 10")
    case True
    then show ?thesis
      using digit_char_not_underscore [of n] by (simp add: show_nat.simps [of n])
  next
    case False
    have "n mod 10 < 10" by simp
    then have "digit_char (n mod 10) \<noteq> CHR ''_''" by (rule digit_char_not_underscore)
    with False 1 show ?thesis
      by (auto simp: show_nat.simps [of n])
  qed
qed

lemma show_nat_nonempty: "show_nat n \<noteq> []"
  by (simp add: show_nat.simps [of n])

lemma show_nat_inj: "show_nat n = show_nat m \<Longrightarrow> n = m"
proof (induction n arbitrary: m rule: show_nat.induct)
  case (1 n)
  show ?case
  proof (cases "n < 10")
    case n: True
    show ?thesis
    proof (cases "m < 10")
      case True
      with n 1(2) show ?thesis
        by (simp add: show_nat.simps [of n] show_nat.simps [of m] digit_char_inj)
    next
      case False
      with n 1(2) show ?thesis
        using show_nat_nonempty [of "m div 10"]
        by (simp add: show_nat.simps [of n] show_nat.simps [of m])
    qed
  next
    case n: False
    show ?thesis
    proof (cases "m < 10")
      case True
      with n 1(2) show ?thesis
        using show_nat_nonempty [of "n div 10"]
        by (simp add: show_nat.simps [of n] show_nat.simps [of m])
    next
      case False
      with n 1(2) have e: "show_nat (n div 10) = show_nat (m div 10)"
        and d: "digit_char (n mod 10) = digit_char (m mod 10)"
        by (simp_all add: show_nat.simps [of n] show_nat.simps [of m])
      from 1(1) [OF n e] have q: "n div 10 = m div 10" .
      have "n mod 10 = m mod 10"
        by (rule digit_char_inj [OF _ _ d]) simp_all
      with q show ?thesis
        by (metis div_mult_mod_eq)
    qed
  qed
qed

lemma split_at_separator:
  assumes "c \<notin> set a" and "c \<notin> set b" and "a @ c # r = b @ c # r'"
  shows "a = b \<and> r = r'"
proof -
  have "\<forall>x \<in> set a. x \<noteq> c" and "\<forall>x \<in> set b. x \<noteq> c"
    using assms(1,2) by auto
  then have "takeWhile (\<lambda>x. x \<noteq> c) (a @ c # r) = a"
    and "takeWhile (\<lambda>x. x \<noteq> c) (b @ c # r') = b"
    by (simp_all add: takeWhile_append2)
  then have "a = b" using assms(3) by simp
  with assms(3) show ?thesis by simp
qed

lemma widget_id_key:
  assumes "widget_id i idx a = widget_id i' idx' a'"
  shows "i = i' \<and> idx = idx'"
proof -
  from assms have e: "show_nat i @ CHR ''_'' # (show_nat idx @ CHR ''_'' # widget_name i idx a)
      = show_nat i' @ CHR ''_'' # (show_nat idx' @ CHR ''_'' # widget_name i' idx' a')"
    by (simp add: widget_id_def)
  from split_at_separator [OF show_nat_no_underscore show_nat_no_underscore e]
  have 1: "show_nat i = show_nat i'"
    and 2: "show_nat idx @ CHR ''_'' # widget_name i idx a
            = show_nat idx' @ CHR ''_'' # widget_name i' idx' a'"
    by simp_all
  from split_at_separator [OF show_nat_no_underscore show_nat_no_underscore 2]
  have 3: "show_nat idx = show_nat idx'" by simp
  from 1 3 show ?thesis by (simp add: show_nat_inj)
qed

lemma extract_widget_id: "ov_id (extract_widget i vp idx a) = widget_id i idx a"
  by (simp add: extract_widget_def Let_def)

lemma keyed_ids_distinct:
  assumes "distinct (map fst ps)"
  shows "distinct (map (\<lambda>((i, idx), a). widget_id i idx a) ps)"
proof -
  have "inj_on (\<lambda>((i, idx), a). widget_id i idx a) (set ps)"
  proof (rule inj_onI, goal_cases)
    case (1 p q)
    obtain i idx a where pp: "p = ((i, idx), a)" by (metis prod.exhaust)
    obtain i' idx' a' where qq: "q = ((i', idx'), a')" by (metis prod.exhaust)
    from 1(3) pp qq have "i = i' \<and> idx = idx'" by (simp add: widget_id_key)
    then have "fst p = fst q" by (simp add: pp qq)
    with assms 1(1,2) show ?case
      by (meson distinct_map inj_onD)
  qed
  moreover from assms have "distinct ps" by (rule distinct_map [THEN iffD1, THEN conjunct1])
  ultimately show ?thesis by (simp add: distinct_map)
qed

lemma keyed_widgets_keys:
  "distinct (map fst (concat (map (\<lambda>(i, page). map (\<lambda>(idx, a). ((i, idx), a)) (page_widgets page))
                                 (enumerate n pdf)))) \<and>
   (\<forall>k \<in> set (map fst (concat (map (\<lambda>(i, page). map (\<lambda>(idx, a). ((i, idx), a)) (page_widgets page))
                                 (enumerate n pdf)))). n \<le> fst k)"
proof (induction pdf arbitrary: n)
  case Nil
  show ?case by simp
next
  case (Cons p ps)
  have a: "map fst (map (\<lambda>(idx, a). ((n, idx), a)) (page_widgets p))
             = map (Pair n) (map fst (page_widgets p))"
    by (simp add: case_prod_unfold comp_def)
  have b: "distinct (map fst (page_widgets p))"
    by (simp add: page_widgets_def)
  have c: "distinct (map (Pair n) (map fst (page_widgets p)))"
    using b by (simp add: distinct_map inj_on_def)
  from Cons.IH [of "Suc n"] show ?case
    by (auto simp: a c in_set_enumerate_eq simp del: map_map)
qed

lemma extracted_ids:
  "map ov_id (extractFieldsWithPdfJs pdf) =
     map (\<lambda>((i, idx), a). widget_id i idx a)
       (concat (map (\<lambda>(i, page). map (\<lambda>(idx, a). ((i, idx), a)) (page_widgets page))
                    (enumerate 1 pdf)))"
  by (simp add: extractFieldsWithPdfJs_def map_concat comp_def case_prod_unfold extract_widget_id)

section \<open>Overlay ids\<close>

text \<open>
  Claim C9. Within one extraction run the ids of the produced overlays, each of the form
  page number, underscore, index on the page, underscore, name, are pairwise distinct,
  whatever the number of pages and the annotations of each page.
\<close>

theorem extracted_ids_distinct: "distinct (map ov_id (extractFieldsWithPdfJs pdf))"
  unfolding extracted_ids
  by (rule keyed_ids_distinct) (rule keyed_widgets_keys [THEN conjunct1])

section \<open>Where an extracted overlay comes from\<close>

lemma page_widgets_member:
  assumes "(idx, a) \<in> set (page_widgets page)"
  shows "a \<in> set (getAnnotations page) \<and> subtype a = ''Widget''"
proof -
  let ?ws = "filter (\<lambda>a. subtype a = ''Widget'') (getAnnotations page)"
  from assms have "idx < length ?ws" and "?ws ! idx = a"
    by (simp_all add: page_widgets_def in_set_enumerate_eq)
  then have "a \<in> set ?ws"
    using nth_mem [of idx ?ws] by simp
  then show ?thesis by simp
qed

lemma extracted_origin:
  assumes "ov \<in> set (extractFieldsWithPdfJs pdf)"
  shows "\<exists>i page idx a. page \<in> set pdf \<and> a \<in> set (getAnnotations page) \<and>
           subtype a = ''Widget'' \<and> ov = extract_widget i (page_viewport page) idx a"
proof -
  from assms obtain i page idx a where
    "(i, page) \<in> set (enumerate 1 pdf)" and w: "(idx, a) \<in> set (page_widgets page)"
    and ov: "ov = extract_widget i (page_viewport page) idx a"
    by (auto simp: extractFieldsWithPdfJs_def)
  then have "page \<in> set pdf" by (auto simp: in_set_enumerate_eq)
  with page_widgets_member [OF w] ov show ?thesis by blast
qed

lemma extracted_origin_rev0:
  assumes "ov \<in> set (extractFieldsWithPdfJs_rev0 pdf)"
  shows "\<exists>i page idx a. page \<in> set pdf \<and> a \<in> set (getAnnotations page) \<and>
           subtype a = ''Widget'' \<and> ov = extract_widget_rev0 i (page_viewport page) idx a"
proof -
  from assms obtain i page idx a where
    "(i, page) \<in> set (enumerate 1 pdf)" and w: "(idx, a) \<in> set (page_widgets page)"
    and ov: "ov = extract_widget_rev0 i (page_viewport page) idx a"
    by (auto simp: extractFieldsWithPdfJs_rev0_def)
  then have "page \<in> set pdf" by (auto simp: in_set_enumerate_eq)
  with page_widgets_member [OF w] ov show ?thesis by blast
qed

lemma widget_has_index:
  assumes "a \<in> set (getAnnotations page)" and "subtype a = ''Widget''"
  shows "\<exists>idx. (idx, a) \<in> set (page_widgets page)"
proof -
  let ?ws = "filter (\<lambda>a. subtype a = ''Widget'') (getAnnotations page)"
  from assms have "a \<in> set ?ws" by simp
  then obtain idx where "idx < length ?ws" and "?ws ! idx = a"
    unfolding in_set_conv_nth by blast
  then have "(idx, a) \<in> set (page_widgets page)"
    by (simp add: page_widgets_def in_set_enumerate_eq)
  then show ?thesis ..
qed

lemma page_has_number:
  assumes "page \<in> set pdf"
  shows "\<exists>i. (i, page) \<in> set (enumerate 1 pdf)"
proof -
  from assms obtain k where "k < length pdf" and "pdf ! k = page"
    unfolding in_set_conv_nth by blast
  then have "(Suc k, page) \<in> set (enumerate 1 pdf)"
    by (simp add: in_set_enumerate_eq)
  then show ?thesis ..
qed

lemma widget_extracted:
  assumes "page \<in> set pdf" and "a \<in> set (getAnnotations page)" and "subtype a = ''Widget''"
  shows "\<exists>i idx. extract_widget i (page_viewport page) idx a \<in> set (extractFieldsWithPdfJs pdf)"
proof -
  from page_has_number [OF assms(1)] obtain i where i: "(i, page) \<in> set (enumerate 1 pdf)" ..
  from widget_has_index [OF assms(2,3)] obtain idx where w: "(idx, a) \<in> set (page_widgets page)" ..
  from i w have "extract_widget i (page_viewport page) idx a \<in> set (extractFieldsWithPdfJs pdf)"
    by (force simp: extractFieldsWithPdfJs_def)
  then show ?thesis by blast
qed

lemma widget_extracted_rev0:
  assumes "page \<in> set pdf" and "a \<in> set (getAnnotations page)" and "subtype a = ''Widget''"
  shows "\<exists>i idx. extract_widget_rev0 i (page_viewport page) idx a
           \<in> set (extractFieldsWithPdfJs_rev0 pdf)"
proof -
  from page_has_number [OF assms(1)] obtain i where i: "(i, page) \<in> set (enumerate 1 pdf)" ..
  from widget_has_index [OF assms(2,3)] obtain idx where w: "(idx, a) \<in> set (page_widgets page)" ..
  from i w have "extract_widget_rev0 i (page_viewport page) idx a
      \<in> set (extractFieldsWithPdfJs_rev0 pdf)"
    by (force simp: extractFieldsWithPdfJs_rev0_def)
  then show ?thesis by blast
qed

lemma extract_widget_size:
  "ov_type (extract_widget i (page_viewport page) idx a) = mapped_type a \<and>
   (if mapped_type a = ''checkbox'' \<or> mapped_type a = ''radio'' then
      ov_width (extract_widget i (page_viewport page) idx a) =
        max 12 (min (rect_width (widget_rect page a)) (rect_height (widget_rect page a))) \<and>
      ov_height (extract_widget i (page_viewport page) idx a) =
        max 12 (min (rect_width (widget_rect page a)) (rect_height (widget_rect page a)))
    else
      ov_width (extract_widget i (page_viewport page) idx a) =
        max 40 (rect_width (widget_rect page a)) \<and>
      ov_height (extract_widget i (page_viewport page) idx a) =
        max 20 (rect_height (widget_rect page a)))"
  by (simp add: extract_widget_def widget_rect_def Let_def)

lemma extract_widget_rev0_size:
  "ov_type (extract_widget_rev0 i (page_viewport page) idx a) = mapped_type a \<and>
   ov_width (extract_widget_rev0 i (page_viewport page) idx a) =
     max 40 (rect_width (widget_rect page a)) \<and>
   ov_height (extract_widget_rev0 i (page_viewport page) idx a) =
     max 20 (rect_height (widget_rect page a))"
  by (simp add: extract_widget_rev0_def widget_rect_def Let_def)

lemma extract_widget_value:
  "ov_type (extract_widget i vp idx a) = mapped_type a \<and>
   ov_value (extract_widget i vp idx a) = (case fieldValue a of None \<Rightarrow> JStr [] | Some v \<Rightarrow> v)"
  by (simp add: extract_widget_def widget_value_def Let_def)

lemma extract_widget_rev0_value:
  "ov_type (extract_widget_rev0 i vp idx a) = mapped_type a \<and>
   ov_value (extract_widget_rev0 i vp idx a) =
     (case fieldValue a of None \<Rightarrow> JStr [] | Some v \<Rightarrow> v)"
  by (simp add: extract_widget_rev0_def widget_value_def Let_def)

lemma self_test_extracted:
  "extractFieldsWithPdfJs self_test_pdf =
     [\<lparr>ov_id = ''1_0_Name'', ov_pageIndex = 0, ov_type = ''text'', ov_name = ''Name'',
       ov_value = JStr ''Ada'', ov_x = 108, ov_y = 102, ov_width = 300, ov_height = 36\<rparr>,
      \<lparr>ov_id = ''1_1_Agree'', ov_pageIndex = 0, ov_type = ''checkbox'', ov_name = ''Agree'',
       ov_value = JStr [], ov_x = 108, ov_y = 186, ov_width = 12, ov_height = 12\<rparr>]"
  by code_simp

lemma self_test_extracted_rev0:
  "extractFieldsWithPdfJs_rev0 self_test_pdf =
     [\<lparr>ov_id = ''1_0_Name'', ov_pageIndex = 0, ov_type = ''text'', ov_name = ''Name'',
       ov_value = JStr ''Ada'', ov_x = 108, ov_y = 102, ov_width = 300, ov_height = 36\<rparr>,
      \<lparr>ov_id = ''1_1_Agree'', ov_pageIndex = 0, ov_type = ''checkbox'', ov_name = ''Agree'',
       ov_value = JStr [], ov_x = 108, ov_y = 186, ov_width = 40, ov_height = 20\<rparr>]"
  by code_simp

lemma tick_widget_converted:
  "widget_rect self_test_page flat_tick_widget =
     \<lparr>rect_x = 108, rect_y = 186, rect_width = 30, rect_height = 12\<rparr>"
  by code_simp

lemma self_test_members:
  "self_test_page \<in> set self_test_pdf"
  "flat_tick_widget \<in> set (getAnnotations self_test_page)"
  "subtype flat_tick_widget = ''Widget''"
  "fieldValue flat_tick_widget = None"
  "mapped_type flat_tick_widget = ''checkbox''"
  by (simp_all add: self_test_pdf_def self_test_page_def letter_page_def flat_tick_widget_def
      mapped_type_def mapPdfJsFieldType_def)

section \<open>Minimum sizes at extraction\<close>

text \<open>
  Claim C3, as the code has it. Every overlay the extractor produces comes from a widget
  annotation of some page. If its canonical type is checkbox or radio, its width and its
  height are both the larger of 12 and the smaller of the two converted dimensions (a
  square); for every other canonical type the width is the converted width clamped to at
  least 40 and the height the converted height clamped to at least 20. The earlier
  revision of the module applies the 40 and 20 clamps to every canonical type.
\<close>

theorem extracted_size_policy:
  "(page \<in> set pdf \<and> a \<in> set (getAnnotations page) \<and> subtype a = ''Widget'' \<longrightarrow>
      (\<exists>v. v \<in> set (extractFieldsWithPdfJs pdf) \<and> ov_type v = mapped_type a \<and>
         (if mapped_type a = ''checkbox'' \<or> mapped_type a = ''radio'' then
            ov_width v =
              max 12 (min (rect_width (widget_rect page a)) (rect_height (widget_rect page a))) \<and>
            ov_height v =
              max 12 (min (rect_width (widget_rect page a)) (rect_height (widget_rect page a)))
          else
            ov_width v = max 40 (rect_width (widget_rect page a)) \<and>
            ov_height v = max 20 (rect_height (widget_rect page a)))) \<and>
      (\<exists>v. v \<in> set (extractFieldsWithPdfJs_rev0 pdf) \<and> ov_type v = mapped_type a \<and>
         ov_width v = max 40 (rect_width (widget_rect page a)) \<and>
         ov_height v = max 20 (rect_height (widget_rect page a)))) \<and>
   (ov \<in> set (extractFieldsWithPdfJs pdf) \<longrightarrow>
      (\<exists>p w. p \<in> set pdf \<and> w \<in> set (getAnnotations p) \<and> subtype w = ''Widget'' \<and>
         ov_type ov = mapped_type w \<and>
         (if ov_type ov = ''checkbox'' \<or> ov_type ov = ''radio'' then
            ov_width ov =
              max 12 (min (rect_width (widget_rect p w)) (rect_height (widget_rect p w))) \<and>
            ov_height ov = ov_width ov
          else
            ov_width ov = max 40 (rect_width (widget_rect p w)) \<and>
            ov_height ov = max 20 (rect_height (widget_rect p w))))) \<and>
   (ov \<in> set (extractFieldsWithPdfJs_rev0 pdf) \<longrightarrow>
      (\<exists>p w. p \<in> set pdf \<and> w \<in> set (getAnnotations p) \<and> subtype w = ''Widget'' \<and>
         ov_type ov = mapped_type w \<and>
         ov_width ov = max 40 (rect_width (widget_rect p w)) \<and>
         ov_height ov = max 20 (rect_height (widget_rect p w))))"
proof (intro conjI impI)
  assume h: "page \<in> set pdf \<and> a \<in> set (getAnnotations page) \<and> subtype a = ''Widget''"
  then obtain i idx where
    "extract_widget i (page_viewport page) idx a \<in> set (extractFieldsWithPdfJs pdf)"
    using widget_extracted by blast
  with extract_widget_size [of i page idx a]
  show "\<exists>v. v \<in> set (extractFieldsWithPdfJs pdf) \<and> ov_type v = mapped_type a \<and>
         (if mapped_type a = ''checkbox'' \<or> mapped_type a = ''radio'' then
            ov_width v =
              max 12 (min (rect_width (widget_rect page a)) (rect_height (widget_rect page a))) \<and>
            ov_height v =
              max 12 (min (rect_width (widget_rect page a)) (rect_height (widget_rect page a)))
          else
            ov_width v = max 40 (rect_width (widget_rect page a)) \<and>
            ov_height v = max 20 (rect_height (widget_rect page a)))"
    by blast
  from h obtain j jdx where
    "extract_widget_rev0 j (page_viewport page) jdx a \<in> set (extractFieldsWithPdfJs_rev0 pdf)"
    using widget_extracted_rev0 by blast
  with extract_widget_rev0_size [of j page jdx a]
  show "\<exists>v. v \<in> set (extractFieldsWithPdfJs_rev0 pdf) \<and> ov_type v = mapped_type a \<and>
         ov_width v = max 40 (rect_width (widget_rect page a)) \<and>
         ov_height v = max 20 (rect_height (widget_rect page a))"
    by blast
next
  assume "ov \<in> set (extractFieldsWithPdfJs pdf)"
  from extracted_origin [OF this] obtain i p idx w where
    m: "p \<in> set pdf" "w \<in> set (getAnnotations p)" "subtype w = ''Widget''"
    and ov: "ov = extract_widget i (page_viewport p) idx w"
    by blast
  from extract_widget_size [of i p idx w] m
  show "\<exists>p w. p \<in> set pdf \<and> w \<in> set (getAnnotations p) \<and> subtype w = ''Widget'' \<and>
         ov_type ov = mapped_type w \<and>
         (if ov_type ov = ''checkbox'' \<or> ov_type ov = ''radio'' then
            ov_width ov =
              max 12 (min (rect_width (widget_rect p w)) (rect_height (widget_rect p w))) \<and>
            ov_height ov = ov_width ov
          else
            ov_width ov = max 40 (rect_width (widget_rect p w)) \<and>
            ov_height ov = max 20 (rect_height (widget_rect p w)))"
    unfolding ov by (intro exI [of _ p] exI [of _ w]) (simp split: if_splits)
next
  assume "ov \<in> set (extractFieldsWithPdfJs_rev0 pdf)"
  from extracted_origin_rev0 [OF this] obtain i p idx w where
    m: "p \<in> set pdf" "w \<in> set (getAnnotations p)" "subtype w = ''Widget''"
    and ov: "ov = extract_widget_rev0 i (page_viewport p) idx w"
    by blast
  from extract_widget_rev0_size [of i p idx w] m
  show "\<exists>p w. p \<in> set pdf \<and> w \<in> set (getAnnotations p) \<and> subtype w = ''Widget'' \<and>
         ov_type ov = mapped_type w \<and>
         ov_width ov = max 40 (rect_width (widget_rect p w)) \<and>
         ov_height ov = max 20 (rect_height (widget_rect p w))"
    unfolding ov by (intro exI [of _ p] exI [of _ w]) simp
qed

theorem extracted_size_policy_witness:
  "self_test_page \<in> set self_test_pdf \<and>
   flat_tick_widget \<in> set (getAnnotations self_test_page) \<and>
   subtype flat_tick_widget = ''Widget'' \<and>
   extracted_tick \<in> set (extractFieldsWithPdfJs self_test_pdf) \<and>
   extracted_tick_rev0 \<in> set (extractFieldsWithPdfJs_rev0 self_test_pdf) \<and>
   (\<exists>v. v \<in> set (extractFieldsWithPdfJs self_test_pdf) \<and> ov_type v = ''checkbox'' \<and>
      ov_width v = 12 \<and> ov_height v = 12) \<and>
   (\<exists>v. v \<in> set (extractFieldsWithPdfJs_rev0 self_test_pdf) \<and> ov_type v = ''checkbox'' \<and>
      ov_width v = 40 \<and> ov_height v = 20) \<and>
   (\<exists>p w. p \<in> set self_test_pdf \<and> w \<in> set (getAnnotations p) \<and> subtype w = ''Widget'' \<and>
      mapped_type w = ''checkbox'' \<and>
      max 12 (min (rect_width (widget_rect p w)) (rect_height (widget_rect p w))) = 12) \<and>
   (\<exists>p w. p \<in> set self_test_pdf \<and> w \<in> set (getAnnotations p) \<and> subtype w = ''Widget'' \<and>
      mapped_type w = ''checkbox'' \<and>
      max 40 (rect_width (widget_rect p w)) = 40 \<and> max 20 (rect_height (widget_rect p w)) = 20)"
proof -
  note inst = extracted_size_policy [of self_test_page self_test_pdf flat_tick_widget]
  have m: "extracted_tick \<in> set (extractFieldsWithPdfJs self_test_pdf)"
    by (simp add: self_test_extracted extracted_tick_def)
  have m0: "extracted_tick_rev0 \<in> set (extractFieldsWithPdfJs_rev0 self_test_pdf)"
    by (simp add: self_test_extracted_rev0 extracted_tick_rev0_def)
  have t: "ov_type extracted_tick = ''checkbox''" "ov_width extracted_tick = 12"
    by (simp_all add: extracted_tick_def)
  have t0: "ov_type extracted_tick_rev0 = ''checkbox''" "ov_width extracted_tick_rev0 = 40"
    "ov_height extracted_tick_rev0 = 20"
    by (simp_all add: extracted_tick_rev0_def)
  from inst [of extracted_tick] self_test_members
  obtain v where v: "v \<in> set (extractFieldsWithPdfJs self_test_pdf)" "ov_type v = ''checkbox''"
      "ov_width v = max 12 (min (rect_width (widget_rect self_test_page flat_tick_widget))
                                (rect_height (widget_rect self_test_page flat_tick_widget)))"
      "ov_height v = max 12 (min (rect_width (widget_rect self_test_page flat_tick_widget))
                                 (rect_height (widget_rect self_test_page flat_tick_widget)))"
    by auto
  then have f: "\<exists>v. v \<in> set (extractFieldsWithPdfJs self_test_pdf) \<and> ov_type v = ''checkbox'' \<and>
      ov_width v = 12 \<and> ov_height v = 12"
    by (intro exI [of _ v]) (simp add: tick_widget_converted)
  from inst [of extracted_tick] self_test_members
  obtain u where u: "u \<in> set (extractFieldsWithPdfJs_rev0 self_test_pdf)" "ov_type u = ''checkbox''"
      "ov_width u = max 40 (rect_width (widget_rect self_test_page flat_tick_widget))"
      "ov_height u = max 20 (rect_height (widget_rect self_test_page flat_tick_widget))"
    by auto
  then have f0: "\<exists>v. v \<in> set (extractFieldsWithPdfJs_rev0 self_test_pdf) \<and>
      ov_type v = ''checkbox'' \<and> ov_width v = 40 \<and> ov_height v = 20"
    by (intro exI [of _ u]) (simp add: tick_widget_converted)
  from inst [of extracted_tick] m
  obtain p w where p: "p \<in> set self_test_pdf" "w \<in> set (getAnnotations p)"
      "subtype w = ''Widget''" "ov_type extracted_tick = mapped_type w"
    and s: "if ov_type extracted_tick = ''checkbox'' \<or> ov_type extracted_tick = ''radio'' then
            ov_width extracted_tick =
              max 12 (min (rect_width (widget_rect p w)) (rect_height (widget_rect p w))) \<and>
            ov_height extracted_tick = ov_width extracted_tick
          else
            ov_width extracted_tick = max 40 (rect_width (widget_rect p w)) \<and>
            ov_height extracted_tick = max 20 (rect_height (widget_rect p w))"
    by blast
  from p s t
  have b: "\<exists>p w. p \<in> set self_test_pdf \<and> w \<in> set (getAnnotations p) \<and> subtype w = ''Widget'' \<and>
      mapped_type w = ''checkbox'' \<and>
      max 12 (min (rect_width (widget_rect p w)) (rect_height (widget_rect p w))) = 12"
    by (intro exI [of _ p] exI [of _ w]) simp
  from inst [of extracted_tick_rev0] m0
  obtain p0 w0 where p0: "p0 \<in> set self_test_pdf" "w0 \<in> set (getAnnotations p0)"
      "subtype w0 = ''Widget''" "ov_type extracted_tick_rev0 = mapped_type w0"
    and s0: "ov_width extracted_tick_rev0 = max 40 (rect_width (widget_rect p0 w0))"
         "ov_height extracted_tick_rev0 = max 20 (rect_height (widget_rect p0 w0))"
    by blast
  from p0 s0 t0
  have b0: "\<exists>p w. p \<in> set self_test_pdf \<and> w \<in> set (getAnnotations p) \<and> subtype w = ''Widget'' \<and>
      mapped_type w = ''checkbox'' \<and>
      max 40 (rect_width (widget_rect p w)) = 40 \<and> max 20 (rect_height (widget_rect p w)) = 20"
    by (intro exI [of _ p0] exI [of _ w0]) simp
  from self_test_members(1-3) m m0 f f0 b b0 show ?thesis by blast
qed

text \<open>
  The claim as stated fails: a checkbox widget converted to 30 by 12 pixels is produced
  12 wide by the current module and 40 wide by the earlier revision, never 30 wide.
\<close>

theorem extracted_tick_not_independent:
  "extractFieldsWithPdfJs self_test_pdf ! 1 = extracted_tick \<and>
   ov_type extracted_tick = ''checkbox'' \<and>
   ov_width extracted_tick = 12 \<and>
   max 12 (rect_width (widget_rect self_test_page flat_tick_widget)) = 30 \<and>
   extractFieldsWithPdfJs_rev0 self_test_pdf ! 1 = extracted_tick_rev0 \<and>
   ov_width extracted_tick_rev0 = 40"
  by (simp add: self_test_extracted self_test_extracted_rev0 tick_widget_converted
      extracted_tick_def extracted_tick_rev0_def)

section \<open>Values at extraction\<close>

text \<open>
  Claim C5, as the code has it. The value of a produced overlay is the widget's current
  field value when one is present; when it is absent the value is the empty string for
  every canonical type, checkbox and radio included. The empty string is falsy.
\<close>

theorem extracted_value:
  "(page \<in> set pdf \<and> a \<in> set (getAnnotations page) \<and> subtype a = ''Widget'' \<longrightarrow>
      (\<exists>v. v \<in> set (extractFieldsWithPdfJs pdf) \<and> ov_type v = mapped_type a \<and>
         ov_value v = (case fieldValue a of None \<Rightarrow> JStr [] | Some x \<Rightarrow> x)) \<and>
      (\<exists>v. v \<in> set (extractFieldsWithPdfJs_rev0 pdf) \<and> ov_type v = mapped_type a \<and>
         ov_value v = (case fieldValue a of None \<Rightarrow> JStr [] | Some x \<Rightarrow> x))) \<and>
   (ov \<in> set (extractFieldsWithPdfJs pdf) \<or> ov \<in> set (extractFieldsWithPdfJs_rev0 pdf) \<longrightarrow>
      (\<exists>p w. p \<in> set pdf \<and> w \<in> set (getAnnotations p) \<and> subtype w = ''Widget'' \<and>
         ov_type ov = mapped_type w \<and>
         ov_value ov = (case fieldValue w of None \<Rightarrow> JStr [] | Some x \<Rightarrow> x))) \<and>
   \<not> truthy (JStr [])"
proof (intro conjI impI)
  assume h: "page \<in> set pdf \<and> a \<in> set (getAnnotations page) \<and> subtype a = ''Widget''"
  then obtain i idx where
    "extract_widget i (page_viewport page) idx a \<in> set (extractFieldsWithPdfJs pdf)"
    using widget_extracted by blast
  with extract_widget_value [of i "page_viewport page" idx a]
  show "\<exists>v. v \<in> set (extractFieldsWithPdfJs pdf) \<and> ov_type v = mapped_type a \<and>
         ov_value v = (case fieldValue a of None \<Rightarrow> JStr [] | Some x \<Rightarrow> x)"
    by blast
  from h obtain j jdx where
    "extract_widget_rev0 j (page_viewport page) jdx a \<in> set (extractFieldsWithPdfJs_rev0 pdf)"
    using widget_extracted_rev0 by blast
  with extract_widget_rev0_value [of j "page_viewport page" jdx a]
  show "\<exists>v. v \<in> set (extractFieldsWithPdfJs_rev0 pdf) \<and> ov_type v = mapped_type a \<and>
         ov_value v = (case fieldValue a of None \<Rightarrow> JStr [] | Some x \<Rightarrow> x)"
    by blast
next
  assume "ov \<in> set (extractFieldsWithPdfJs pdf) \<or> ov \<in> set (extractFieldsWithPdfJs_rev0 pdf)"
  then show "\<exists>p w. p \<in> set pdf \<and> w \<in> set (getAnnotations p) \<and> subtype w = ''Widget'' \<and>
         ov_type ov = mapped_type w \<and>
         ov_value ov = (case fieldValue w of None \<Rightarrow> JStr [] | Some x \<Rightarrow> x)"
  proof
    assume "ov \<in> set (extractFieldsWithPdfJs pdf)"
    from extracted_origin [OF this] show ?thesis
      using extract_widget_value by blast
  next
    assume "ov \<in> set (extractFieldsWithPdfJs_rev0 pdf)"
    from extracted_origin_rev0 [OF this] show ?thesis
      using extract_widget_rev0_value by blast
  qed
next
  show "\<not> truthy (JStr [])" by simp
qed

theorem extracted_value_witness:
  "self_test_page \<in> set self_test_pdf \<and>
   flat_tick_widget \<in> set (getAnnotations self_test_page) \<and>
   subtype flat_tick_widget = ''Widget'' \<and>
   fieldValue flat_tick_widget = None \<and>
   extracted_tick \<in> set (extractFieldsWithPdfJs self_test_pdf) \<and>
   (\<exists>v. v \<in> set (extractFieldsWithPdfJs self_test_pdf) \<and> ov_type v = ''checkbox'' \<and>
      ov_value v = JStr []) \<and>
   (\<exists>p w. p \<in> set self_test_pdf \<and> w \<in> set (getAnnotations p) \<and> subtype w = ''Widget'' \<and>
      mapped_type w = ''checkbox'' \<and>
      (case fieldValue w of None \<Rightarrow> JStr [] | Some x \<Rightarrow> x) = JStr [])"
proof -
  note inst = extracted_value [of self_test_page self_test_pdf flat_tick_widget extracted_tick]
  have m: "extracted_tick \<in> set (extractFieldsWithPdfJs self_test_pdf)"
    by (simp add: self_test_extracted extracted_tick_def)
  have t: "ov_type extracted_tick = ''checkbox''" "ov_value extracted_tick = JStr []"
    by (simp_all add: extracted_tick_def)
  from inst self_test_members
  obtain v where "v \<in> set (extractFieldsWithPdfJs self_test_pdf)" "ov_type v = ''checkbox''"
      "ov_value v = JStr []"
    by auto
  then have f: "\<exists>v. v \<in> set (extractFieldsWithPdfJs self_test_pdf) \<and> ov_type v = ''checkbox'' \<and>
      ov_value v = JStr []"
    by blast
  from inst m
  obtain p w where p: "p \<in> set self_test_pdf" "w \<in> set (getAnnotations p)"
      "subtype w = ''Widget''" "ov_type extracted_tick = mapped_type w"
      "ov_value extracted_tick = (case fieldValue w of None \<Rightarrow> JStr [] | Some x \<Rightarrow> x)"
    by blast
  from p t
  have b: "\<exists>p w. p \<in> set self_test_pdf \<and> w \<in> set (getAnnotations p) \<and> subtype w = ''Widget'' \<and>
      mapped_type w = ''checkbox'' \<and>
      (case fieldValue w of None \<Rightarrow> JStr [] | Some x \<Rightarrow> x) = JStr []"
    by (intro exI [of _ p] exI [of _ w]) simp
  from self_test_members(1-4) m f b show ?thesis by blast
qed

text \<open>
  The claim as stated fails: a checkbox widget without a current value yields the empty
  string, not the boolean false.
\<close>

theorem absent_tick_value_is_empty_string:
  "fieldValue flat_tick_widget = None \<and>
   mapped_type flat_tick_widget = ''checkbox'' \<and>
   map ov_value (extractFieldsWithPdfJs [letter_page [flat_tick_widget]]) = [JStr []] \<and>
   map ov_value (extractFieldsWithPdfJs [letter_page [flat_tick_widget]]) \<noteq> [JBool False]"
  by code_simp

section \<open>Page indices at apply time\<close>

lemma apply_loop_bad_index:
  assumes "ov \<in> set overlays" and "js_index pages (ov_pageIndex ov) = None"
  shows "\<exists>e. apply_loop L d npages pages overlays = Inl e"
  using assms
proof (induction overlays arbitrary: d)
  case Nil
  then show ?case by simp
next
  case (Cons v vs)
  show ?case
  proof (cases "overlay_calls npages pages v")
    case (Inl e)
    then show ?thesis by simp
  next
    case (Inr cs)
    then have "js_index pages (ov_pageIndex v) \<noteq> None"
      by (auto simp: overlay_calls_def split: option.splits)
    with Cons.prems have m: "ov \<in> set vs" by auto
    show ?thesis
    proof (cases "run_calls L d cs")
      case (Inl e)
      with Inr show ?thesis by simp
    next
      case r: (Inr d')
      from Cons.IH [OF m Cons.prems(2), of d'] Inr r show ?thesis by simp
    qed
  qed
qed

lemma applyFields_bad_index:
  assumes "ov \<in> set overlays" and "js_index pages (ov_pageIndex ov) = None"
  shows "\<exists>e. applyFields L b overlays pages = Inl e"
proof (cases "lib_load L b")
  case (Inl e)
  then show ?thesis by (simp add: applyFields_def)
next
  case d0: (Inr d0)
  obtain d1 x where g: "lib_exec L d0 GetForm = (d1, x)" by (cases "lib_exec L d0 GetForm")
  show ?thesis
  proof (cases x)
    case (Some e)
    with d0 g show ?thesis by (simp add: applyFields_def)
  next
    case None
    show ?thesis
    proof (cases "lib_getPages L d1")
      case (Inl e)
      with d0 g None show ?thesis by (simp add: applyFields_def)
    next
      case (Inr n)
      from apply_loop_bad_index [OF assms, of L d1 n] obtain e where
        "apply_loop L d1 n pages overlays = Inl e" by blast
      with d0 g None Inr show ?thesis by (simp add: applyFields_def)
    qed
  qed
qed

lemma run_calls_recorded:
  "run_calls (rec_lib faultless) d cs = Inr (d\<lparr>doc_log := doc_log d @ cs\<rparr>)"
proof (induction cs arbitrary: d)
  case Nil
  show ?case by simp
next
  case (Cons c cs)
  have "lib_exec (rec_lib faultless) d c = (d\<lparr>doc_log := doc_log d @ [c]\<rparr>, None)"
    by (simp add: rec_lib_def faultless_def)
  then show ?case by (simp add: Cons.IH)
qed

lemma overlay_calls_error: "overlay_calls npages pages v = Inl e \<Longrightarrow> e = TypeError"
  by (auto simp: overlay_calls_def split: option.splits)

lemma apply_loop_bad_index_recorded:
  assumes "ov \<in> set overlays" and "js_index pages (ov_pageIndex ov) = None"
  shows "apply_loop (rec_lib faultless) d npages pages overlays = Inl TypeError"
  using assms
proof (induction overlays arbitrary: d)
  case Nil
  then show ?case by simp
next
  case (Cons v vs)
  show ?case
  proof (cases "overlay_calls npages pages v")
    case (Inl e)
    with overlay_calls_error [OF Inl] show ?thesis by simp
  next
    case (Inr cs)
    then have "js_index pages (ov_pageIndex v) \<noteq> None"
      by (auto simp: overlay_calls_def split: option.splits)
    with Cons.prems have m: "ov \<in> set vs" by auto
    from Cons.IH [OF m Cons.prems(2)] Inr show ?thesis
      by (simp add: run_calls_recorded)
  qed
qed

lemma applyFields_bad_index_recorded:
  assumes "ov \<in> set overlays" and "js_index pages (ov_pageIndex ov) = None"
  shows "applyFields (rec_lib faultless) (blank_doc n) overlays pages = Inl TypeError"
proof -
  have l: "lib_load (rec_lib faultless) (blank_doc n) = Inr (blank_doc n)"
    "lib_exec (rec_lib faultless) (blank_doc n) GetForm =
       (\<lparr>doc_pages = n, doc_log = [GetForm]\<rparr>, None)"
    "lib_getPages (rec_lib faultless) \<lparr>doc_pages = n, doc_log = [GetForm]\<rparr> = Inr n"
    by (simp_all add: rec_lib_def faultless_def blank_doc_def)
  show ?thesis
    by (simp add: applyFields_def l apply_loop_bad_index_recorded [OF assms])
qed

lemma js_index_None: "js_index xs i = None \<longleftrightarrow> \<not> (0 \<le> i \<and> i < int (length xs))"
  by (auto simp: js_index_def)

text \<open>
  Claim C6, as the code has it. If some overlay of the list has a page index outside the
  supplied page-handle list, \<^verbatim>\<open>applyFields\<close> ends with an error and produces no output
  bytes, whatever the library does. When the page-handle list and the document have the
  same number of pages, as the caller keeps them, this is the same as the index being
  outside the document's page count. The call reads its input bytes and returns new ones;
  it has no access to earlier output. The code has no error of its own for this: when no
  library call throws first, what is thrown is the TypeError of reading a property of
  \<^verbatim>\<open>undefined\<close>.
\<close>

theorem apply_fails_outside_page_handles:
  "(ov \<in> set overlays \<and> \<not> (0 \<le> ov_pageIndex ov \<and> ov_pageIndex ov < int (length pages)) \<longrightarrow>
      (\<exists>e. applyFields L b overlays pages = Inl e)) \<and>
   (ov \<in> set overlays \<and>
    lib_load L b = Inr d0 \<and> lib_exec L d0 GetForm = (d1, None) \<and>
    lib_getPages L d1 = Inr n \<and> length pages = n \<and>
    \<not> (0 \<le> ov_pageIndex ov \<and> ov_pageIndex ov < int n) \<longrightarrow>
      (\<exists>e. applyFields L b overlays pages = Inl e)) \<and>
   (ov \<in> set overlays \<and> \<not> (0 \<le> ov_pageIndex ov \<and> ov_pageIndex ov < int (length pages)) \<longrightarrow>
      applyFields (rec_lib faultless) (blank_doc n) overlays pages = Inl TypeError)"
  using applyFields_bad_index [of ov overlays pages L b]
    applyFields_bad_index_recorded [of ov overlays pages n]
  by (auto simp: js_index_None)

theorem apply_fails_outside_page_handles_witness:
  "stamp_overlay 3 \<in> set [tick_overlay, stamp_overlay 3] \<and>
   \<not> (0 \<le> ov_pageIndex (stamp_overlay 3) \<and>
      ov_pageIndex (stamp_overlay 3) < int (length [letter_page []])) \<and>
   lib_load (rec_lib faultless) (blank_doc 1) = Inr (blank_doc 1) \<and>
   lib_exec (rec_lib faultless) (blank_doc 1) GetForm =
     (\<lparr>doc_pages = 1, doc_log = [GetForm]\<rparr>, None) \<and>
   lib_getPages (rec_lib faultless) \<lparr>doc_pages = 1, doc_log = [GetForm]\<rparr> = Inr 1 \<and>
   applyFields (rec_lib faultless) (blank_doc 1) [tick_overlay, stamp_overlay 3]
     [letter_page []] = Inl TypeError"
proof -
  have m: "stamp_overlay 3 \<in> set [tick_overlay, stamp_overlay 3]" by simp
  have r: "\<not> (0 \<le> ov_pageIndex (stamp_overlay 3) \<and>
      ov_pageIndex (stamp_overlay 3) < int (length [letter_page []]))"
    by (simp add: stamp_overlay_def)
  have l: "lib_load (rec_lib faultless) (blank_doc 1) = Inr (blank_doc 1)"
    "lib_exec (rec_lib faultless) (blank_doc 1) GetForm =
       (\<lparr>doc_pages = 1, doc_log = [GetForm]\<rparr>, None)"
    "lib_getPages (rec_lib faultless) \<lparr>doc_pages = 1, doc_log = [GetForm]\<rparr> = Inr 1"
    by (simp_all add: rec_lib_def faultless_def blank_doc_def)
  from apply_fails_outside_page_handles [of "stamp_overlay 3" "[tick_overlay, stamp_overlay 3]"
      "[letter_page []]" "rec_lib faultless" "blank_doc 1" "blank_doc 1"
      "\<lparr>doc_pages = 1, doc_log = [GetForm]\<rparr>" 1] m r
  have "applyFields (rec_lib faultless) (blank_doc 1) [tick_overlay, stamp_overlay 3]
          [letter_page []] = Inl TypeError"
    by blast
  with m r l show ?thesis by blast
qed

text \<open>
  The claim as stated fails for an index that is inside the page-handle list but outside
  the document's pages: an overlay of an unhandled type with page index 1, a one-page
  document and two page handles. The call completes and returns bytes.
\<close>

theorem apply_succeeds_outside_document_pages:
  "\<not> (0 \<le> ov_pageIndex (stamp_overlay 1) \<and> ov_pageIndex (stamp_overlay 1) < int (doc_pages (blank_doc 1))) \<and>
   applyFields (rec_lib faultless) (blank_doc 1) [stamp_overlay 1] [letter_page [], letter_page []]
     = Inr \<lparr>doc_pages = 1, doc_log = [GetForm]\<rparr>"
  by code_simp

section \<open>Overlays of other types\<close>

lemma field_calls_unknown:
  "\<not> known_type (ov_type ov) \<Longrightarrow> field_calls targPage r ov = []"
  by (simp add: field_calls_def known_type_def)

lemma field_calls_rev0_unknown:
  "\<not> known_type (ov_type ov) \<Longrightarrow> field_calls_rev0 targPage r ov = []"
  by (simp add: field_calls_rev0_def known_type_def)

lemma apply_loop_skips_unknown:
  assumes "\<forall>ov \<in> set overlays. \<not> known_type (ov_type ov) \<longrightarrow>
             0 \<le> ov_pageIndex ov \<and> ov_pageIndex ov < int (length pages)"
  shows "apply_loop L d npages pages overlays =
         apply_loop L d npages pages (filter (\<lambda>ov. known_type (ov_type ov)) overlays)"
  using assms
proof (induction overlays arbitrary: d)
  case Nil
  show ?case by simp
next
  case (Cons v vs)
  from Cons.prems have rest: "\<forall>ov \<in> set vs. \<not> known_type (ov_type ov) \<longrightarrow>
             0 \<le> ov_pageIndex ov \<and> ov_pageIndex ov < int (length pages)"
    by simp
  show ?case
  proof (cases "known_type (ov_type v)")
    case True
    then show ?thesis
      by (simp add: Cons.IH [OF rest] split: sum.splits)
  next
    case False
    with Cons.prems have "js_index pages (ov_pageIndex v) \<noteq> None"
      by (simp add: js_index_None)
    with False have "overlay_calls npages pages v = Inr []"
      by (auto simp: overlay_calls_def field_calls_unknown)
    with False show ?thesis
      by (simp add: Cons.IH [OF rest])
  qed
qed

text \<open>
  Claim C10, as the code has it. An overlay whose type is none of text, date, dropdown,
  checkbox and radio gives rise to no library call, so no field is created for it. If
  every such overlay has a page index inside the page-handle list, the whole call behaves
  exactly as on the list without them: it completes with the same bytes, or fails with
  the same error, as it would for the remaining overlays alone.
\<close>

theorem unknown_types_skipped:
  "(\<not> known_type (ov_type ov) \<longrightarrow>
      field_calls targPage r ov = [] \<and> field_calls_rev0 targPage r ov = []) \<and>
   ((\<forall>ov \<in> set overlays. \<not> known_type (ov_type ov) \<longrightarrow>
        0 \<le> ov_pageIndex ov \<and> ov_pageIndex ov < int (length pages)) \<longrightarrow>
      applyFields L b overlays pages =
        applyFields L b (filter (\<lambda>ov. known_type (ov_type ov)) overlays) pages)"
proof (intro conjI impI)
  assume "\<not> known_type (ov_type ov)"
  then show "field_calls targPage r ov = []" by (rule field_calls_unknown)
next
  assume "\<not> known_type (ov_type ov)"
  then show "field_calls_rev0 targPage r ov = []" by (rule field_calls_rev0_unknown)
next
  assume h: "\<forall>ov \<in> set overlays. \<not> known_type (ov_type ov) \<longrightarrow>
        0 \<le> ov_pageIndex ov \<and> ov_pageIndex ov < int (length pages)"
  show "applyFields L b overlays pages =
        applyFields L b (filter (\<lambda>ov. known_type (ov_type ov)) overlays) pages"
    unfolding applyFields_def
    by (simp only: apply_loop_skips_unknown [OF h])
qed

theorem unknown_types_skipped_witness:
  "\<not> known_type (ov_type (stamp_overlay 0)) \<and>
   field_calls (Some 0) unit_rect (stamp_overlay 0) = [] \<and>
   applyFields (rec_lib faultless) (blank_doc 1) [stamp_overlay 0, tick_overlay] [letter_page []] =
     Inr \<lparr>doc_pages = 1,
          doc_log = [GetForm, CreateCheckBox ''Agree'',
                     AddToPage (Some 0)
                       \<lparr>rect_x = 40, rect_y = 744, rect_width = 12, rect_height = 12\<rparr>,
                     Uncheck]\<rparr>"
proof -
  have u: "\<not> known_type (ov_type (stamp_overlay 0))"
    by (simp add: stamp_overlay_def known_type_def)
  have k: "known_type (ov_type tick_overlay)"
    by (simp add: tick_overlay_def known_type_def)
  have i: "\<forall>ov \<in> set [stamp_overlay 0, tick_overlay]. \<not> known_type (ov_type ov) \<longrightarrow>
        0 \<le> ov_pageIndex ov \<and> ov_pageIndex ov < int (length [letter_page []])"
    by (simp add: stamp_overlay_def k)
  have f: "filter (\<lambda>ov. known_type (ov_type ov)) [stamp_overlay 0, tick_overlay] = [tick_overlay]"
    by (simp add: u k)
  have e: "applyFields (rec_lib faultless) (blank_doc 1) [tick_overlay] [letter_page []] =
     Inr \<lparr>doc_pages = 1,
          doc_log = [GetForm, CreateCheckBox ''Agree'',
                     AddToPage (Some 0)
                       \<lparr>rect_x = 40, rect_y = 744, rect_width = 12, rect_height = 12\<rparr>,
                     Uncheck]\<rparr>"
    by code_simp
  from unknown_types_skipped [of "stamp_overlay 0" "Some 0" unit_rect "[stamp_overlay 0, tick_overlay]"
      "[letter_page []]" "rec_lib faultless" "blank_doc 1"] u i f e
  show ?thesis by simp
qed

text \<open>
  The claim as stated fails when such an overlay has a page index outside the page-handle
  list: the page is resolved before the type is looked at, and the call throws.
\<close>

theorem unknown_type_outside_page_handles_throws:
  "\<not> known_type (ov_type (stamp_overlay 5)) \<and>
   applyFields (rec_lib faultless) (blank_doc 1) [stamp_overlay 5] [letter_page []] = Inl TypeError \<and>
   applyFields (rec_lib faultless) (blank_doc 1) [] [letter_page []] =
     Inr \<lparr>doc_pages = 1, doc_log = [GetForm]\<rparr>"
  by code_simp

section \<open>The hard-delete phase\<close>

lemma rec_lib_exec:
  "lib_exec (rec_lib throws) d c =
     (d\<lparr>doc_log := doc_log d @ [c]\<rparr>, if throws c then Some LibError else None)"
  by (simp add: rec_lib_def)

lemma rec_lib_present:
  "lib_catalogDict (rec_lib throws) d" "lib_nodeDict (rec_lib throws) d i"
  "lib_getPages (rec_lib throws) d = Inr (doc_pages d)"
  by (simp_all add: rec_lib_def)

lemma delete_annots_recorded:
  assumes "\<forall>i \<in> set ps. \<not> throws (DeleteAnnots i)"
  shows "delete_annots (rec_lib throws) d ps =
           (d\<lparr>doc_log := doc_log d @ map DeleteAnnots ps\<rparr>, None)"
  using assms
proof (induction ps arbitrary: d)
  case Nil
  show ?case by simp
next
  case (Cons p ps)
  then show ?case
    by (simp add: rec_lib_exec rec_lib_present)
qed

lemma delete_annots_recorded_failure:
  assumes "\<forall>i \<in> set ps. \<not> throws (DeleteAnnots i)" and "throws (DeleteAnnots k)"
  shows "delete_annots (rec_lib throws) d (ps @ k # qs) =
           (d\<lparr>doc_log := doc_log d @ map DeleteAnnots (ps @ [k])\<rparr>, Some LibError)"
  using assms
proof (induction ps arbitrary: d)
  case Nil
  then show ?case by (simp add: rec_lib_exec rec_lib_present)
next
  case (Cons p ps)
  then show ?case
    by (simp add: rec_lib_exec rec_lib_present)
qed

lemma hard_delete_trace_catalog_failure:
  assumes "throws DeleteAcroForm"
  shows "doc_log (hard_delete (rec_lib throws) (blank_doc n)) = [DeleteAcroForm]"
  using assms by (simp add: hard_delete_def rec_lib_exec rec_lib_present blank_doc_def)

lemma hard_delete_trace_no_failure:
  assumes "\<not> throws DeleteAcroForm" and "\<forall>i < n. \<not> throws (DeleteAnnots i)"
  shows "doc_log (hard_delete (rec_lib throws) (blank_doc n)) =
           DeleteAcroForm # map DeleteAnnots [0..<n]"
proof -
  from assms(2) have "\<forall>i \<in> set [0..<n]. \<not> throws (DeleteAnnots i)" by simp
  from delete_annots_recorded [OF this] assms(1) show ?thesis
    by (simp add: hard_delete_def rec_lib_exec rec_lib_present blank_doc_def)
qed

lemma hard_delete_trace_page_failure:
  assumes "\<not> throws DeleteAcroForm" and "k < n" and "throws (DeleteAnnots k)"
    and "\<forall>i < k. \<not> throws (DeleteAnnots i)"
  shows "doc_log (hard_delete (rec_lib throws) (blank_doc n)) =
           DeleteAcroForm # map DeleteAnnots [0..<Suc k]"
proof -
  from assms(2) have s: "[0..<n] = [0..<k] @ k # [Suc k..<n]"
    by (metis upt_conv_Cons upt_add_eq_append le0 add_0 le_add_diff_inverse less_imp_le)
  from assms(4) have "\<forall>i \<in> set [0..<k]. \<not> throws (DeleteAnnots i)" by simp
  from delete_annots_recorded_failure [OF this assms(3)] assms(1) show ?thesis
    by (simp add: hard_delete_def rec_lib_exec rec_lib_present blank_doc_def s)
qed

text \<open>
  Claim C7, as the code has it. The form-catalog removal is attempted first and the
  per-page removals after it, in page order, all inside one guarded block. An exception
  thrown by the catalog removal is dropped and ends the phase: the document is left as
  that call left it and no page removal follows. If the catalog removal does not throw,
  the page loop runs from the state it left, so a later failure cannot undo it; an
  exception thrown by one page's removal is dropped and ends the loop, skipping the
  remaining pages. A missing catalog dictionary or page dictionary is passed over without
  a call and without an error. Whatever happened in the phase, the fallback flatten and
  the save follow. The last three parts give the calls the phase makes on a document of
  \<open>n\<close> pages, for every choice of the calls that throw.
\<close>

theorem hard_delete_single_guard:
  "(lib_catalogDict L d \<and> lib_exec L d DeleteAcroForm = (d1, Some e) \<longrightarrow>
      hard_delete L d = d1) \<and>
   (lib_catalogDict L d \<and> lib_exec L d DeleteAcroForm = (d1, None) \<and>
    lib_getPages L d1 = Inr n \<longrightarrow>
      hard_delete L d = fst (delete_annots L d1 [0..<n])) \<and>
   (\<not> lib_catalogDict L d \<and> lib_getPages L d = Inr n \<longrightarrow>
      hard_delete L d = fst (delete_annots L d [0..<n])) \<and>
   (lib_nodeDict L d i \<and> lib_exec L d (DeleteAnnots i) = (d2, Some e) \<longrightarrow>
      delete_annots L d (i # rest) = (d2, Some e)) \<and>
   (lib_nodeDict L d i \<and> lib_exec L d (DeleteAnnots i) = (d2, None) \<longrightarrow>
      delete_annots L d (i # rest) = delete_annots L d2 rest) \<and>
   (\<not> lib_nodeDict L d i \<longrightarrow>
      delete_annots L d (i # rest) = delete_annots L d rest) \<and>
   (lib_load L b = Inr d0 \<and> lib_exec L d0 EmbedFont = (d, None) \<longrightarrow>
      flattenWithPdfLib L b = lib_save L (flatten_fallback L (hard_delete L d))) \<and>
   (throws DeleteAcroForm \<longrightarrow>
      doc_log (hard_delete (rec_lib throws) (blank_doc n)) = [DeleteAcroForm]) \<and>
   (\<not> throws DeleteAcroForm \<and> k < n \<and> throws (DeleteAnnots k) \<and>
    (\<forall>i < k. \<not> throws (DeleteAnnots i)) \<longrightarrow>
      doc_log (hard_delete (rec_lib throws) (blank_doc n)) =
        DeleteAcroForm # map DeleteAnnots [0..<Suc k]) \<and>
   (\<not> throws DeleteAcroForm \<and> (\<forall>i < n. \<not> throws (DeleteAnnots i)) \<longrightarrow>
      doc_log (hard_delete (rec_lib throws) (blank_doc n)) =
        DeleteAcroForm # map DeleteAnnots [0..<n])"
proof -
  have state: "(lib_catalogDict L d \<and> lib_exec L d DeleteAcroForm = (d1, Some e) \<longrightarrow>
      hard_delete L d = d1) \<and>
   (lib_catalogDict L d \<and> lib_exec L d DeleteAcroForm = (d1, None) \<and>
    lib_getPages L d1 = Inr n \<longrightarrow>
      hard_delete L d = fst (delete_annots L d1 [0..<n])) \<and>
   (\<not> lib_catalogDict L d \<and> lib_getPages L d = Inr n \<longrightarrow>
      hard_delete L d = fst (delete_annots L d [0..<n])) \<and>
   (lib_nodeDict L d i \<and> lib_exec L d (DeleteAnnots i) = (d2, Some e) \<longrightarrow>
      delete_annots L d (i # rest) = (d2, Some e)) \<and>
   (lib_nodeDict L d i \<and> lib_exec L d (DeleteAnnots i) = (d2, None) \<longrightarrow>
      delete_annots L d (i # rest) = delete_annots L d2 rest) \<and>
   (\<not> lib_nodeDict L d i \<longrightarrow>
      delete_annots L d (i # rest) = delete_annots L d rest) \<and>
   (lib_load L b = Inr d0 \<and> lib_exec L d0 EmbedFont = (d, None) \<longrightarrow>
      flattenWithPdfLib L b = lib_save L (flatten_fallback L (hard_delete L d)))"
    by (simp add: hard_delete_def flattenWithPdfLib_def)
  from state hard_delete_trace_catalog_failure [of throws n]
    hard_delete_trace_page_failure [of throws k n]
    hard_delete_trace_no_failure [of throws n]
  show ?thesis by blast
qed

theorem hard_delete_single_guard_witness:
  "hard_delete (rec_lib catalog_throws) (blank_doc 2) =
     \<lparr>doc_pages = 2, doc_log = [DeleteAcroForm]\<rparr> \<and>
   hard_delete (rec_lib faultless) (blank_doc 2) =
     \<lparr>doc_pages = 2, doc_log = [DeleteAcroForm, DeleteAnnots 0, DeleteAnnots 1]\<rparr> \<and>
   delete_annots (rec_lib first_page_throws) (blank_doc 2) [0, 1] =
     (\<lparr>doc_pages = 2, doc_log = [DeleteAnnots 0]\<rparr>, Some LibError) \<and>
   flattenWithPdfLib (rec_lib catalog_throws) (blank_doc 2) =
     Inr \<lparr>doc_pages = 2, doc_log = [EmbedFont, DeleteAcroForm, GetForm, FormFlatten]\<rparr> \<and>
   doc_log (hard_delete (rec_lib first_page_throws) (blank_doc 2)) =
     [DeleteAcroForm, DeleteAnnots 0]"
proof -
  let ?C = "rec_lib catalog_throws" and ?F = "rec_lib faultless" and ?P = "rec_lib first_page_throws"
  have c: "lib_catalogDict ?C (blank_doc 2)"
    "lib_exec ?C (blank_doc 2) DeleteAcroForm =
       (\<lparr>doc_pages = 2, doc_log = [DeleteAcroForm]\<rparr>, Some LibError)"
    by (simp_all add: rec_lib_def catalog_throws_def blank_doc_def)
  have f: "lib_catalogDict ?F (blank_doc 2)"
    "lib_exec ?F (blank_doc 2) DeleteAcroForm =
       (\<lparr>doc_pages = 2, doc_log = [DeleteAcroForm]\<rparr>, None)"
    "lib_getPages ?F \<lparr>doc_pages = 2, doc_log = [DeleteAcroForm]\<rparr> = Inr 2"
    by (simp_all add: rec_lib_def faultless_def blank_doc_def)
  have fd: "fst (delete_annots ?F \<lparr>doc_pages = 2, doc_log = [DeleteAcroForm]\<rparr> [0..<2]) =
      \<lparr>doc_pages = 2, doc_log = [DeleteAcroForm, DeleteAnnots 0, DeleteAnnots 1]\<rparr>"
    by code_simp
  have p: "lib_nodeDict ?P (blank_doc 2) 0"
    "lib_exec ?P (blank_doc 2) (DeleteAnnots 0) =
       (\<lparr>doc_pages = 2, doc_log = [DeleteAnnots 0]\<rparr>, Some LibError)"
    by (simp_all add: rec_lib_def first_page_throws_def blank_doc_def)
  have l: "lib_load ?C (blank_doc 2) = Inr (blank_doc 2)"
    "lib_exec ?C (blank_doc 2) EmbedFont = (\<lparr>doc_pages = 2, doc_log = [EmbedFont]\<rparr>, None)"
    by (simp_all add: rec_lib_def catalog_throws_def blank_doc_def)
  have s: "lib_save ?C (flatten_fallback ?C
             (hard_delete ?C \<lparr>doc_pages = 2, doc_log = [EmbedFont]\<rparr>)) =
      Inr \<lparr>doc_pages = 2, doc_log = [EmbedFont, DeleteAcroForm, GetForm, FormFlatten]\<rparr>"
    by code_simp
  have t: "\<not> first_page_throws DeleteAcroForm" "(0::nat) < 2" "first_page_throws (DeleteAnnots 0)"
    "\<forall>i < (0::nat). \<not> first_page_throws (DeleteAnnots i)"
    by (simp_all add: first_page_throws_def)
  from hard_delete_single_guard [where L = ?C and d = "blank_doc 2"
      and ?d1.0 = "\<lparr>doc_pages = 2, doc_log = [DeleteAcroForm]\<rparr>" and e = LibError] c
  have 1: "hard_delete ?C (blank_doc 2) = \<lparr>doc_pages = 2, doc_log = [DeleteAcroForm]\<rparr>"
    by blast
  from hard_delete_single_guard [where L = ?F and d = "blank_doc 2"
      and ?d1.0 = "\<lparr>doc_pages = 2, doc_log = [DeleteAcroForm]\<rparr>" and n = 2] f fd
  have 2: "hard_delete ?F (blank_doc 2) =
      \<lparr>doc_pages = 2, doc_log = [DeleteAcroForm, DeleteAnnots 0, DeleteAnnots 1]\<rparr>"
    by simp
  from hard_delete_single_guard [where L = ?P and d = "blank_doc 2" and i = 0
      and ?d2.0 = "\<lparr>doc_pages = 2, doc_log = [DeleteAnnots 0]\<rparr>" and e = LibError
      and rest = "[1]"] p
  have 3: "delete_annots ?P (blank_doc 2) [0, 1] =
      (\<lparr>doc_pages = 2, doc_log = [DeleteAnnots 0]\<rparr>, Some LibError)"
    by blast
  from hard_delete_single_guard [where L = ?C and d = "\<lparr>doc_pages = 2, doc_log = [EmbedFont]\<rparr>"
      and b = "blank_doc 2" and ?d0.0 = "blank_doc 2"] l s
  have 4: "flattenWithPdfLib ?C (blank_doc 2) =
      Inr \<lparr>doc_pages = 2, doc_log = [EmbedFont, DeleteAcroForm, GetForm, FormFlatten]\<rparr>"
    by simp
  have "doc_log (hard_delete ?P (blank_doc 2)) = DeleteAcroForm # map DeleteAnnots [0..<Suc 0]"
    using hard_delete_single_guard [where throws = first_page_throws and k = 0 and n = 2
        and L = ?P and d = "blank_doc 2" and ?d1.0 = "blank_doc 2" and e = LibError and i = 0
        and ?d2.0 = "blank_doc 2" and rest = "[]" and b = "blank_doc 2" and ?d0.0 = "blank_doc 2"]
      t
    by (elim conjE) (rule mp, assumption, intro conjI)
  then have 5: "doc_log (hard_delete ?P (blank_doc 2)) = [DeleteAcroForm, DeleteAnnots 0]"
    by simp
  from 1 2 3 4 5 show ?thesis by blast
qed

text \<open>
  The claim as stated fails: when the catalog removal throws on a two-page document, no
  page's annotation removal is attempted; and when the first page's removal throws, the
  second page's is not attempted.
\<close>

theorem catalog_failure_skips_page_removals:
  "hard_delete (rec_lib catalog_throws) (blank_doc 2) =
     \<lparr>doc_pages = 2, doc_log = [DeleteAcroForm]\<rparr> \<and>
   DeleteAnnots 0 \<notin> set (doc_log (hard_delete (rec_lib catalog_throws) (blank_doc 2))) \<and>
   DeleteAnnots 1 \<notin> set (doc_log (hard_delete (rec_lib catalog_throws) (blank_doc 2))) \<and>
   doc_log (hard_delete (rec_lib faultless) (blank_doc 2)) =
     [DeleteAcroForm, DeleteAnnots 0, DeleteAnnots 1] \<and>
   doc_log (hard_delete (rec_lib first_page_throws) (blank_doc 2)) =
     [DeleteAcroForm, DeleteAnnots 0]"
  by code_simp

section \<open>The calls of a whole run\<close>

text \<open>
  Against the recording library with no failure, a run whose page indices all lie inside
  the page-handle list returns the document with \<^verbatim>\<open>getForm\<close> followed by the calls of
  each overlay in order: the per-overlay results above are about the calls
  \<^verbatim>\<open>applyFields\<close> makes.
\<close>

lemma apply_loop_recorded:
  assumes "\<forall>ov \<in> set overlays. 0 \<le> ov_pageIndex ov \<and> ov_pageIndex ov < int (length pages)"
  shows "apply_loop (rec_lib faultless) d n pages overlays =
     Inr (d\<lparr>doc_log := doc_log d @
            concat (map (\<lambda>ov. field_calls (js_index [0..<n] (ov_pageIndex ov))
                                 (converted_rect (pages ! nat (ov_pageIndex ov)) ov) ov)
                        overlays)\<rparr>)"
  using assms
proof (induction overlays arbitrary: d)
  case Nil
  show ?case by simp
next
  case (Cons v vs)
  from Cons.prems have "0 \<le> ov_pageIndex v" and "ov_pageIndex v < int (length pages)"
    by simp_all
  then have "nat (ov_pageIndex v) < length pages" by linarith
  with \<open>0 \<le> ov_pageIndex v\<close>
  have i: "js_index pages (ov_pageIndex v) = Some (pages ! nat (ov_pageIndex v))"
    by (simp add: js_index_def)
  from Cons.prems have rest:
    "\<forall>ov \<in> set vs. 0 \<le> ov_pageIndex ov \<and> ov_pageIndex ov < int (length pages)"
    by simp
  show ?case
    by (simp add: overlay_calls_def i run_calls_recorded Cons.IH [OF rest])
qed

lemma applyFields_recorded:
  assumes "\<forall>ov \<in> set overlays. 0 \<le> ov_pageIndex ov \<and> ov_pageIndex ov < int (length pages)"
  shows "applyFields (rec_lib faultless) (blank_doc n) overlays pages =
     Inr \<lparr>doc_pages = n,
          doc_log = GetForm #
            concat (map (\<lambda>ov. field_calls (js_index [0..<n] (ov_pageIndex ov))
                                 (converted_rect (pages ! nat (ov_pageIndex ov)) ov) ov)
                        overlays)\<rparr>"
proof -
  have l: "lib_load (rec_lib faultless) (blank_doc n) = Inr (blank_doc n)"
    "lib_exec (rec_lib faultless) (blank_doc n) GetForm =
       (\<lparr>doc_pages = n, doc_log = [GetForm]\<rparr>, None)"
    "lib_getPages (rec_lib faultless) \<lparr>doc_pages = n, doc_log = [GetForm]\<rparr> = Inr n"
    "\<And>d. lib_save (rec_lib faultless) d = Inr d"
    by (simp_all add: rec_lib_def faultless_def blank_doc_def)
  show ?thesis
    by (simp add: applyFields_def l apply_loop_recorded [OF assms])
qed

section \<open>What a completed run hands to the library\<close>

lemma placed_rects_append: "placed_rects (xs @ ys) = placed_rects xs @ placed_rects ys"
  by (induction xs rule: placed_rects.induct) simp_all

lemma created_names_append: "created_names (xs @ ys) = created_names xs @ created_names ys"
  by (induction xs rule: created_names.induct) simp_all

lemma placed_rects_concat:
  "placed_rects (concat (map f xs)) = concat (map (\<lambda>x. placed_rects (f x)) xs)"
  by (induction xs) (simp_all add: placed_rects_append)

lemma created_names_concat:
  "created_names (concat (map f xs)) = concat (map (\<lambda>x. created_names (f x)) xs)"
  by (induction xs) (simp_all add: created_names_append)

lemma concat_map_if: "concat (map (\<lambda>x. if P x then [g x] else []) xs) = map g (filter P xs)"
  by (induction xs) simp_all

lemma placed_rects_field_calls:
  "placed_rects (field_calls targPage r ov) =
     (if known_type (ov_type ov) then
        [if ov_type ov = ''checkbox'' \<or> ov_type ov = ''radio'' then
           \<lparr>rect_x = rect_x r, rect_y = rect_y r,
            rect_width = max 12 (min (rect_width r) (rect_height r)),
            rect_height = max 12 (min (rect_width r) (rect_height r))\<rparr>
         else r]
      else [])"
  by (simp add: field_calls_def known_type_def Let_def)

lemma placed_rects_field_calls_rev0:
  "placed_rects (field_calls_rev0 targPage r ov) =
     (if known_type (ov_type ov) then
        [if ov_type ov = ''checkbox'' \<or> ov_type ov = ''radio'' then
           \<lparr>rect_x = rect_x r, rect_y = rect_y r,
            rect_width = max 12 (rect_width r), rect_height = max 12 (rect_height r)\<rparr>
         else r]
      else [])"
  by (simp add: field_calls_rev0_def known_type_def Let_def)

lemma created_names_field_calls:
  "created_names (field_calls targPage r ov) =
     (if known_type (ov_type ov) then
        [if ov_name ov \<noteq> [] then ov_name ov
         else (if ov_type ov = ''checkbox'' then ''Check_''
               else if ov_type ov = ''radio'' then ''Radio_'' else ''Text_'') @ ov_id ov]
      else [])"
  by (simp add: field_calls_def known_type_def field_name_def Let_def)

lemma apply_loop_rev0_recorded:
  assumes "\<forall>ov \<in> set overlays. 0 \<le> ov_pageIndex ov \<and> ov_pageIndex ov < int (length pages)"
  shows "apply_loop_rev0 (rec_lib faultless) d n pages overlays =
     Inr (d\<lparr>doc_log := doc_log d @
            concat (map (\<lambda>ov. field_calls_rev0 (js_index [0..<n] (ov_pageIndex ov))
                                 (converted_rect (pages ! nat (ov_pageIndex ov)) ov) ov)
                        overlays)\<rparr>)"
  using assms
proof (induction overlays arbitrary: d)
  case Nil
  show ?case by simp
next
  case (Cons v vs)
  from Cons.prems have "0 \<le> ov_pageIndex v" and "ov_pageIndex v < int (length pages)"
    by simp_all
  then have "nat (ov_pageIndex v) < length pages" by linarith
  with \<open>0 \<le> ov_pageIndex v\<close>
  have i: "js_index pages (ov_pageIndex v) = Some (pages ! nat (ov_pageIndex v))"
    by (simp add: js_index_def)
  from Cons.prems have rest:
    "\<forall>ov \<in> set vs. 0 \<le> ov_pageIndex ov \<and> ov_pageIndex ov < int (length pages)"
    by simp
  show ?case
    by (simp add: overlay_calls_rev0_def i run_calls_recorded Cons.IH [OF rest])
qed

lemma applyFields_rev0_recorded:
  assumes "\<forall>ov \<in> set overlays. 0 \<le> ov_pageIndex ov \<and> ov_pageIndex ov < int (length pages)"
  shows "applyFields_rev0 (rec_lib faultless) (blank_doc n) overlays pages =
     Inr \<lparr>doc_pages = n,
          doc_log = GetForm #
            concat (map (\<lambda>ov. field_calls_rev0 (js_index [0..<n] (ov_pageIndex ov))
                                 (converted_rect (pages ! nat (ov_pageIndex ov)) ov) ov)
                        overlays)\<rparr>"
proof -
  have l: "lib_load (rec_lib faultless) (blank_doc n) = Inr (blank_doc n)"
    "lib_exec (rec_lib faultless) (blank_doc n) GetForm =
       (\<lparr>doc_pages = n, doc_log = [GetForm]\<rparr>, None)"
    "lib_getPages (rec_lib faultless) \<lparr>doc_pages = n, doc_log = [GetForm]\<rparr> = Inr n"
    "\<And>d. lib_save (rec_lib faultless) d = Inr d"
    by (simp_all add: rec_lib_def faultless_def blank_doc_def)
  show ?thesis
    by (simp add: applyFields_rev0_def l apply_loop_rev0_recorded [OF assms])
qed

lemma apply_loop_rev0_bad_index_recorded:
  assumes "ov \<in> set overlays" and "js_index pages (ov_pageIndex ov) = None"
  shows "apply_loop_rev0 (rec_lib faultless) d npages pages overlays = Inl TypeError"
  using assms
proof (induction overlays arbitrary: d)
  case Nil
  then show ?case by simp
next
  case (Cons v vs)
  show ?case
  proof (cases "js_index pages (ov_pageIndex v)")
    case None
    then show ?thesis by (simp add: overlay_calls_rev0_def)
  next
    case (Some pg)
    with Cons.prems have m: "ov \<in> set vs" by auto
    from Cons.IH [OF m Cons.prems(2)] Some show ?thesis
      by (simp add: overlay_calls_rev0_def run_calls_recorded)
  qed
qed

lemma applyFields_rev0_bad_index_recorded:
  assumes "ov \<in> set overlays" and "js_index pages (ov_pageIndex ov) = None"
  shows "applyFields_rev0 (rec_lib faultless) (blank_doc n) overlays pages = Inl TypeError"
proof -
  have l: "lib_load (rec_lib faultless) (blank_doc n) = Inr (blank_doc n)"
    "lib_exec (rec_lib faultless) (blank_doc n) GetForm =
       (\<lparr>doc_pages = n, doc_log = [GetForm]\<rparr>, None)"
    "lib_getPages (rec_lib faultless) \<lparr>doc_pages = n, doc_log = [GetForm]\<rparr> = Inr n"
    by (simp_all add: rec_lib_def faultless_def blank_doc_def)
  show ?thesis
    by (simp add: applyFields_rev0_def l apply_loop_rev0_bad_index_recorded [OF assms])
qed

lemma completed_run_indices:
  assumes "applyFields (rec_lib faultless) (blank_doc n) overlays pages = Inr d"
  shows "\<forall>ov \<in> set overlays. 0 \<le> ov_pageIndex ov \<and> ov_pageIndex ov < int (length pages)"
proof (rule ccontr)
  assume "\<not> ?thesis"
  then obtain ov where "ov \<in> set overlays" and "js_index pages (ov_pageIndex ov) = None"
    by (auto simp: js_index_None)
  from applyFields_bad_index_recorded [OF this, of n] assms show False by simp
qed

lemma completed_run_rev0_indices:
  assumes "applyFields_rev0 (rec_lib faultless) (blank_doc n) overlays pages = Inr d"
  shows "\<forall>ov \<in> set overlays. 0 \<le> ov_pageIndex ov \<and> ov_pageIndex ov < int (length pages)"
proof (rule ccontr)
  assume "\<not> ?thesis"
  then obtain ov where "ov \<in> set overlays" and "js_index pages (ov_pageIndex ov) = None"
    by (auto simp: js_index_None)
  from applyFields_rev0_bad_index_recorded [OF this, of n] assms show False by simp
qed

lemma completed_run_log:
  assumes "applyFields (rec_lib faultless) (blank_doc n) overlays pages = Inr d"
  shows "doc_log d = GetForm #
            concat (map (\<lambda>ov. field_calls (js_index [0..<n] (ov_pageIndex ov))
                                 (converted_rect (pages ! nat (ov_pageIndex ov)) ov) ov)
                        overlays)"
  using applyFields_recorded [OF completed_run_indices [OF assms], of n] assms by simp

lemma completed_run_rev0_log:
  assumes "applyFields_rev0 (rec_lib faultless) (blank_doc n) overlays pages = Inr d"
  shows "doc_log d = GetForm #
            concat (map (\<lambda>ov. field_calls_rev0 (js_index [0..<n] (ov_pageIndex ov))
                                 (converted_rect (pages ! nat (ov_pageIndex ov)) ov) ov)
                        overlays)"
  using applyFields_rev0_recorded [OF completed_run_rev0_indices [OF assms], of n] assms by simp

lemma completed_run_rects:
  assumes "applyFields (rec_lib faultless) (blank_doc n) overlays pages = Inr d"
  shows "placed_rects (doc_log d) =
     map (\<lambda>ov. if ov_type ov = ''checkbox'' \<or> ov_type ov = ''radio'' then
                  \<lparr>rect_x = rect_x (converted_rect (pages ! nat (ov_pageIndex ov)) ov),
                   rect_y = rect_y (converted_rect (pages ! nat (ov_pageIndex ov)) ov),
                   rect_width =
                     max 12 (min (rect_width (converted_rect (pages ! nat (ov_pageIndex ov)) ov))
                                 (rect_height (converted_rect (pages ! nat (ov_pageIndex ov)) ov))),
                   rect_height =
                     max 12 (min (rect_width (converted_rect (pages ! nat (ov_pageIndex ov)) ov))
                                 (rect_height (converted_rect (pages ! nat (ov_pageIndex ov)) ov)))\<rparr>
                else converted_rect (pages ! nat (ov_pageIndex ov)) ov)
         (filter (\<lambda>ov. known_type (ov_type ov)) overlays)"
  by (simp add: completed_run_log [OF assms] placed_rects_concat placed_rects_field_calls
      concat_map_if)

lemma completed_run_rev0_rects:
  assumes "applyFields_rev0 (rec_lib faultless) (blank_doc n) overlays pages = Inr d"
  shows "placed_rects (doc_log d) =
     map (\<lambda>ov. if ov_type ov = ''checkbox'' \<or> ov_type ov = ''radio'' then
                  \<lparr>rect_x = rect_x (converted_rect (pages ! nat (ov_pageIndex ov)) ov),
                   rect_y = rect_y (converted_rect (pages ! nat (ov_pageIndex ov)) ov),
                   rect_width =
                     max 12 (rect_width (converted_rect (pages ! nat (ov_pageIndex ov)) ov)),
                   rect_height =
                     max 12 (rect_height (converted_rect (pages ! nat (ov_pageIndex ov)) ov))\<rparr>
                else converted_rect (pages ! nat (ov_pageIndex ov)) ov)
         (filter (\<lambda>ov. known_type (ov_type ov)) overlays)"
  by (simp add: completed_run_rev0_log [OF assms] placed_rects_concat
      placed_rects_field_calls_rev0 concat_map_if)

lemma completed_run_names:
  assumes "applyFields (rec_lib faultless) (blank_doc n) overlays pages = Inr d"
  shows "created_names (doc_log d) =
     map (\<lambda>ov. if ov_name ov \<noteq> [] then ov_name ov
                else (if ov_type ov = ''checkbox'' then ''Check_''
                      else if ov_type ov = ''radio'' then ''Radio_'' else ''Text_'') @ ov_id ov)
         (filter (\<lambda>ov. known_type (ov_type ov)) overlays)"
  by (simp add: completed_run_log [OF assms] created_names_concat created_names_field_calls
      concat_map_if)

lemma tick_overlay_converted:
  "converted_rect (letter_page []) tick_overlay =
     \<lparr>rect_x = 40, rect_y = 744, rect_width = 20, rect_height = 8\<rparr>"
  by (simp add: converted_rect_def tick_overlay_def letter_page_def page_viewport_def
      letter_viewport_def viewportToPdfRectFromViewportRect_def)

section \<open>Tick sizes at apply time\<close>

text \<open>
  Claim C2, as the code has it. Run against the recording library, \<^verbatim>\<open>applyFields\<close>
  completes whenever every page index lies inside the page-handle list, and the
  rectangles of the document it returns are, in overlay order, one per overlay of a
  handled type: for a checkbox or radio overlay the converted \<open>x\<close> and \<open>y\<close> with a
  square whose side is the larger of 12 and the smaller converted dimension, so that both
  dimensions are at least 12 points; for the other types the converted rectangle. The
  earlier revision of the module clamps the converted width and the converted height of a
  tick to at least 12 each, independently. The last two parts say the same of the calls
  of one overlay, whatever library executes them.
\<close>

theorem tick_rect_is_square:
  "((\<forall>ov \<in> set overlays. 0 \<le> ov_pageIndex ov \<and> ov_pageIndex ov < int (length pages)) \<longrightarrow>
      (\<exists>d. applyFields (rec_lib faultless) (blank_doc n) overlays pages = Inr d) \<and>
      (\<exists>d. applyFields_rev0 (rec_lib faultless) (blank_doc n) overlays pages = Inr d)) \<and>
   (applyFields (rec_lib faultless) (blank_doc n) overlays pages = Inr d \<longrightarrow>
      placed_rects (doc_log d) =
        map (\<lambda>ov. if ov_type ov = ''checkbox'' \<or> ov_type ov = ''radio'' then
                     \<lparr>rect_x = rect_x (converted_rect (pages ! nat (ov_pageIndex ov)) ov),
                      rect_y = rect_y (converted_rect (pages ! nat (ov_pageIndex ov)) ov),
                      rect_width =
                        max 12 (min (rect_width (converted_rect (pages ! nat (ov_pageIndex ov)) ov))
                                    (rect_height (converted_rect (pages ! nat (ov_pageIndex ov)) ov))),
                      rect_height =
                        max 12 (min (rect_width (converted_rect (pages ! nat (ov_pageIndex ov)) ov))
                                    (rect_height (converted_rect (pages ! nat (ov_pageIndex ov)) ov)))\<rparr>
                   else converted_rect (pages ! nat (ov_pageIndex ov)) ov)
            (filter (\<lambda>ov. known_type (ov_type ov)) overlays)) \<and>
   (applyFields_rev0 (rec_lib faultless) (blank_doc n) overlays pages = Inr d0 \<longrightarrow>
      placed_rects (doc_log d0) =
        map (\<lambda>ov. if ov_type ov = ''checkbox'' \<or> ov_type ov = ''radio'' then
                     \<lparr>rect_x = rect_x (converted_rect (pages ! nat (ov_pageIndex ov)) ov),
                      rect_y = rect_y (converted_rect (pages ! nat (ov_pageIndex ov)) ov),
                      rect_width =
                        max 12 (rect_width (converted_rect (pages ! nat (ov_pageIndex ov)) ov)),
                      rect_height =
                        max 12 (rect_height (converted_rect (pages ! nat (ov_pageIndex ov)) ov))\<rparr>
                   else converted_rect (pages ! nat (ov_pageIndex ov)) ov)
            (filter (\<lambda>ov. known_type (ov_type ov)) overlays)) \<and>
   (ov_type ov = ''checkbox'' \<or> ov_type ov = ''radio'' \<longrightarrow>
      placed_rects (field_calls targPage r ov) =
        [\<lparr>rect_x = rect_x r, rect_y = rect_y r,
          rect_width = max 12 (min (rect_width r) (rect_height r)),
          rect_height = max 12 (min (rect_width r) (rect_height r))\<rparr>] \<and>
      12 \<le> max 12 (min (rect_width r) (rect_height r))) \<and>
   (ov_type ov = ''checkbox'' \<or> ov_type ov = ''radio'' \<longrightarrow>
      placed_rects (field_calls_rev0 targPage r ov) =
        [\<lparr>rect_x = rect_x r, rect_y = rect_y r,
          rect_width = max 12 (rect_width r), rect_height = max 12 (rect_height r)\<rparr>] \<and>
      12 \<le> max 12 (rect_width r) \<and> 12 \<le> max 12 (rect_height r))"
proof (intro conjI impI)
  assume h: "\<forall>ov \<in> set overlays. 0 \<le> ov_pageIndex ov \<and> ov_pageIndex ov < int (length pages)"
  from applyFields_recorded [OF h, of n]
  show "\<exists>d. applyFields (rec_lib faultless) (blank_doc n) overlays pages = Inr d" by blast
  from applyFields_rev0_recorded [OF h, of n]
  show "\<exists>d. applyFields_rev0 (rec_lib faultless) (blank_doc n) overlays pages = Inr d" by blast
next
  assume "applyFields (rec_lib faultless) (blank_doc n) overlays pages = Inr d"
  then show "placed_rects (doc_log d) =
        map (\<lambda>ov. if ov_type ov = ''checkbox'' \<or> ov_type ov = ''radio'' then
                     \<lparr>rect_x = rect_x (converted_rect (pages ! nat (ov_pageIndex ov)) ov),
                      rect_y = rect_y (converted_rect (pages ! nat (ov_pageIndex ov)) ov),
                      rect_width =
                        max 12 (min (rect_width (converted_rect (pages ! nat (ov_pageIndex ov)) ov))
                                    (rect_height (converted_rect (pages ! nat (ov_pageIndex ov)) ov))),
                      rect_height =
                        max 12 (min (rect_width (converted_rect (pages ! nat (ov_pageIndex ov)) ov))
                                    (rect_height (converted_rect (pages ! nat (ov_pageIndex ov)) ov)))\<rparr>
                   else converted_rect (pages ! nat (ov_pageIndex ov)) ov)
            (filter (\<lambda>ov. known_type (ov_type ov)) overlays)"
    by (rule completed_run_rects)
next
  assume "applyFields_rev0 (rec_lib faultless) (blank_doc n) overlays pages = Inr d0"
  then show "placed_rects (doc_log d0) =
        map (\<lambda>ov. if ov_type ov = ''checkbox'' \<or> ov_type ov = ''radio'' then
                     \<lparr>rect_x = rect_x (converted_rect (pages ! nat (ov_pageIndex ov)) ov),
                      rect_y = rect_y (converted_rect (pages ! nat (ov_pageIndex ov)) ov),
                      rect_width =
                        max 12 (rect_width (converted_rect (pages ! nat (ov_pageIndex ov)) ov)),
                      rect_height =
                        max 12 (rect_height (converted_rect (pages ! nat (ov_pageIndex ov)) ov))\<rparr>
                   else converted_rect (pages ! nat (ov_pageIndex ov)) ov)
            (filter (\<lambda>ov. known_type (ov_type ov)) overlays)"
    by (rule completed_run_rev0_rects)
next
  assume t: "ov_type ov = ''checkbox'' \<or> ov_type ov = ''radio''"
  then show "placed_rects (field_calls targPage r ov) =
        [\<lparr>rect_x = rect_x r, rect_y = rect_y r,
          rect_width = max 12 (min (rect_width r) (rect_height r)),
          rect_height = max 12 (min (rect_width r) (rect_height r))\<rparr>]"
    by (auto simp: field_calls_def Let_def)
  show "12 \<le> max 12 (min (rect_width r) (rect_height r))" by simp
  from t show "placed_rects (field_calls_rev0 targPage r ov) =
        [\<lparr>rect_x = rect_x r, rect_y = rect_y r,
          rect_width = max 12 (rect_width r), rect_height = max 12 (rect_height r)\<rparr>]"
    by (auto simp: field_calls_rev0_def)
  show "12 \<le> max 12 (rect_width r)" and "12 \<le> max 12 (rect_height r)" by simp_all
qed

theorem tick_rect_is_square_witness:
  "0 \<le> ov_pageIndex tick_overlay \<and>
   ov_pageIndex tick_overlay < int (length [letter_page []]) \<and>
   (\<exists>d. applyFields (rec_lib faultless) (blank_doc 1) [tick_overlay] [letter_page []] = Inr d \<and>
      placed_rects (doc_log d) =
        [\<lparr>rect_x = 40, rect_y = 744, rect_width = 12, rect_height = 12\<rparr>]) \<and>
   (\<exists>d. applyFields_rev0 (rec_lib faultless) (blank_doc 1) [tick_overlay] [letter_page []] = Inr d \<and>
      placed_rects (doc_log d) =
        [\<lparr>rect_x = 40, rect_y = 744, rect_width = 20, rect_height = 12\<rparr>])"
proof -
  have i: "\<forall>ov \<in> set [tick_overlay]. 0 \<le> ov_pageIndex ov \<and>
      ov_pageIndex ov < int (length [letter_page []])"
    by (simp add: tick_overlay_def)
  have t: "ov_type tick_overlay = ''checkbox''" "ov_pageIndex tick_overlay = 0"
    "known_type (ov_type tick_overlay)"
    by (simp_all add: tick_overlay_def known_type_def)
  note inst = tick_rect_is_square [where overlays = "[tick_overlay]" and pages = "[letter_page []]"
      and n = 1 and ov = tick_overlay and targPage = "Some 0" and r = unit_rect]
  from inst [where d = "blank_doc 1" and ?d0.0 = "blank_doc 1"] i
  obtain d where d: "applyFields (rec_lib faultless) (blank_doc 1) [tick_overlay] [letter_page []]
      = Inr d"
    by (elim conjE) (drule mp, assumption, blast)
  from inst [where d = "blank_doc 1" and ?d0.0 = "blank_doc 1"] i
  obtain e where e: "applyFields_rev0 (rec_lib faultless) (blank_doc 1) [tick_overlay]
      [letter_page []] = Inr e"
    by (elim conjE) (drule mp, assumption, blast)
  from inst [where d = d and ?d0.0 = e] d t
  have 1: "placed_rects (doc_log d) =
      [\<lparr>rect_x = 40, rect_y = 744, rect_width = 12, rect_height = 12\<rparr>]"
    by (simp add: tick_overlay_converted)
  from inst [where d = d and ?d0.0 = e] e t
  have 2: "placed_rects (doc_log e) =
      [\<lparr>rect_x = 40, rect_y = 744, rect_width = 20, rect_height = 12\<rparr>]"
    by (simp add: tick_overlay_converted)
  from t(2) d e 1 2 show ?thesis by auto
qed

text \<open>
  The claim as stated fails on the current module: a converted rectangle of 20 by 8
  points is stored as 12 by 12, not as 20 by 12.
\<close>

theorem tick_rect_not_independent:
  "applyFields (rec_lib faultless) (blank_doc 1) [tick_overlay] [letter_page []] =
     Inr \<lparr>doc_pages = 1,
          doc_log = [GetForm, CreateCheckBox ''Agree'',
                     AddToPage (Some 0)
                       \<lparr>rect_x = 40, rect_y = 744, rect_width = 12, rect_height = 12\<rparr>,
                     Uncheck]\<rparr> \<and>
   converted_rect (letter_page []) tick_overlay =
     \<lparr>rect_x = 40, rect_y = 744, rect_width = 20, rect_height = 8\<rparr> \<and>
   max 12 (rect_width (converted_rect (letter_page []) tick_overlay)) = 20 \<and>
   max 12 (rect_height (converted_rect (letter_page []) tick_overlay)) = 12"
  by (simp add: tick_overlay_converted)
    (simp add: applyFields_def rec_lib_def faultless_def blank_doc_def overlay_calls_def
      js_index_def field_calls_def field_name_def tick_overlay_converted,
     simp add: tick_overlay_def)

section \<open>Field names at apply time\<close>

text \<open>
  Claim C8. Run against the recording library, \<^verbatim>\<open>applyFields\<close> completes whenever every
  page index lies inside the page-handle list, and the fields of the document it returns
  are, in overlay order, one per overlay of a handled type, each named by the overlay's
  name when that is non-empty and otherwise by \<open>Text_\<close>, \<open>Check_\<close> or \<open>Radio_\<close> followed by
  the overlay id, for the types text, date and dropdown, for checkbox, and for radio. The
  last three parts say the same of the calls of one overlay, whatever library executes
  them.
\<close>

theorem created_field_name:
  "((\<forall>ov \<in> set overlays. 0 \<le> ov_pageIndex ov \<and> ov_pageIndex ov < int (length pages)) \<longrightarrow>
      (\<exists>d. applyFields (rec_lib faultless) (blank_doc n) overlays pages = Inr d)) \<and>
   (applyFields (rec_lib faultless) (blank_doc n) overlays pages = Inr d \<longrightarrow>
      created_names (doc_log d) =
        map (\<lambda>ov. if ov_name ov \<noteq> [] then ov_name ov
                   else (if ov_type ov = ''checkbox'' then ''Check_''
                         else if ov_type ov = ''radio'' then ''Radio_''
                         else ''Text_'') @ ov_id ov)
            (filter (\<lambda>ov. known_type (ov_type ov)) overlays)) \<and>
   (ov_type ov = ''text'' \<or> ov_type ov = ''date'' \<or> ov_type ov = ''dropdown'' \<longrightarrow>
      created_names (field_calls targPage r ov) =
        [if ov_name ov \<noteq> [] then ov_name ov else ''Text_'' @ ov_id ov]) \<and>
   (ov_type ov = ''checkbox'' \<longrightarrow>
      created_names (field_calls targPage r ov) =
        [if ov_name ov \<noteq> [] then ov_name ov else ''Check_'' @ ov_id ov]) \<and>
   (ov_type ov = ''radio'' \<longrightarrow>
      created_names (field_calls targPage r ov) =
        [if ov_name ov \<noteq> [] then ov_name ov else ''Radio_'' @ ov_id ov])"
proof (intro conjI impI)
  assume h: "\<forall>ov \<in> set overlays. 0 \<le> ov_pageIndex ov \<and> ov_pageIndex ov < int (length pages)"
  from applyFields_recorded [OF h, of n]
  show "\<exists>d. applyFields (rec_lib faultless) (blank_doc n) overlays pages = Inr d" by blast
next
  assume "applyFields (rec_lib faultless) (blank_doc n) overlays pages = Inr d"
  then show "created_names (doc_log d) =
        map (\<lambda>ov. if ov_name ov \<noteq> [] then ov_name ov
                   else (if ov_type ov = ''checkbox'' then ''Check_''
                         else if ov_type ov = ''radio'' then ''Radio_''
                         else ''Text_'') @ ov_id ov)
            (filter (\<lambda>ov. known_type (ov_type ov)) overlays)"
    by (rule completed_run_names)
next
  assume "ov_type ov = ''text'' \<or> ov_type ov = ''date'' \<or> ov_type ov = ''dropdown''"
  then show "created_names (field_calls targPage r ov) =
        [if ov_name ov \<noteq> [] then ov_name ov else ''Text_'' @ ov_id ov]"
    by (simp add: field_calls_def field_name_def)
next
  assume "ov_type ov = ''checkbox''"
  then show "created_names (field_calls targPage r ov) =
        [if ov_name ov \<noteq> [] then ov_name ov else ''Check_'' @ ov_id ov]"
    by (simp add: field_calls_def field_name_def Let_def)
next
  assume "ov_type ov = ''radio''"
  then show "created_names (field_calls targPage r ov) =
        [if ov_name ov \<noteq> [] then ov_name ov else ''Radio_'' @ ov_id ov]"
    by (simp add: field_calls_def field_name_def Let_def)
qed

theorem created_field_name_witness:
  "list_all (\<lambda>ov. 0 \<le> ov_pageIndex ov \<and> ov_pageIndex ov < int (length [letter_page []]))
     mixed_overlays \<and>
   (\<exists>d. applyFields (rec_lib faultless) (blank_doc 1) mixed_overlays [letter_page []] = Inr d \<and>
      created_names (doc_log d) = [''Agree'', ''Radio_new_2'', ''Text_new_1'']) \<and>
   created_names (field_calls (Some 0) unit_rect radio_overlay) = [''Radio_new_2'']"
proof -
  have i: "\<forall>ov \<in> set mixed_overlays. 0 \<le> ov_pageIndex ov \<and>
      ov_pageIndex ov < int (length [letter_page []])"
    by (simp add: mixed_overlays_def tick_overlay_def radio_overlay_def stamp_overlay_def)
  have m: "map (\<lambda>ov. if ov_name ov \<noteq> [] then ov_name ov
                   else (if ov_type ov = ''checkbox'' then ''Check_''
                         else if ov_type ov = ''radio'' then ''Radio_''
                         else ''Text_'') @ ov_id ov)
            (filter (\<lambda>ov. known_type (ov_type ov)) mixed_overlays) =
        [''Agree'', ''Radio_new_2'', ''Text_new_1'']"
    by (simp add: mixed_overlays_def tick_overlay_def radio_overlay_def stamp_overlay_def
        known_type_def)
  have b: "ov_type radio_overlay = ''radio''" "ov_name radio_overlay = []"
    "ov_id radio_overlay = ''new_2''"
    by (simp_all add: radio_overlay_def)
  note inst = created_field_name [where overlays = mixed_overlays and pages = "[letter_page []]"
      and n = 1 and ov = radio_overlay and targPage = "Some 0" and r = unit_rect]
  from inst [where d = "blank_doc 1"] i
  obtain d where d: "applyFields (rec_lib faultless) (blank_doc 1) mixed_overlays
      [letter_page []] = Inr d"
    by (elim conjE) (drule mp, assumption, blast)
  from inst [where d = d] d m
  have 1: "created_names (doc_log d) = [''Agree'', ''Radio_new_2'', ''Text_new_1'']"
    by simp
  from inst [where d = d] b
  have 2: "created_names (field_calls (Some 0) unit_rect radio_overlay) = [''Radio_new_2'']"
    by simp
  from i have "list_all (\<lambda>ov. 0 \<le> ov_pageIndex ov \<and>
      ov_pageIndex ov < int (length [letter_page []])) mixed_overlays"
    by (simp add: list_all_iff)
  with d 1 2 show ?thesis by blast
qed

section \<open>Round trip through a viewport\<close>




lemma letter_viewport_agrees:
  "PageViewport letter_box (3 / 2) 0 = Some vp \<Longrightarrow>
     convertToPdfPoint vp 60 60 = convertToPdfPoint letter_viewport 60 60 \<and>
     convertToViewportRectangle vp (72, 660, 92, 668) =
       convertToViewportRectangle letter_viewport (72, 660, 92, 668)"
  by (auto simp: PageViewport_def rotation_matrix_def viewport_transform_def letter_box_def
      applyTransform_def applyInverseTransform_def letter_viewport_def Let_def)



end
